theory Spec2Isabelle
  imports Main
begin

section \<open>Data model\<close>

text \<open>
  The call service (class \<open>CallService\<close>) and the part of the React provider
  (\<open>CallProvider\<close>) that receives incoming calls are embedded as state-passing
  functions. Conventions of the embedding:
  \<^item> an \<open>async\<close> method is a function from the state before the call to the state
    after its promise has settled; a rejected \<open>await\<close> is a branch of the function;
  \<^item> the native WebRTC engine is external: its operations are the fields of a record
    \<open>webrtc\<close> that every function takes as a parameter, over an abstract type \<open>'pc\<close>
    of peer-connection states, \<open>None\<close> standing for a rejected promise;
  \<^item> every call the service makes on an external object is appended to the ghost
    field \<open>trace\<close>, at the moment the call is made and whether or not it succeeds;
  \<^item> a JavaScript value that may be \<open>undefined\<close> or \<open>null\<close> is an \<open>option\<close>;
  \<^item> SDP blobs and ICE candidate descriptors (\<open>data?: any\<close>) are opaque strings;
    the constructors \<open>RTCSessionDescription\<close> and \<open>RTCIceCandidate\<close> only wrap them;
  \<^item> console output is not part of the state.
\<close>

type_synonym payload = string

datatype call_type = voice | video

datatype call_status = ringing | answered | rejected | ended | missed

text \<open>
  A document of the collection \<open>calls\<close>. The store is schemaless and the service
  writes with \<open>{ merge: true }\<close>, so a stored document may hold any subset of the
  fields of the interface \<open>CallOffer\<close>; dates are milliseconds.
\<close>

record CallOffer =
  callId :: "string option"
  callerId :: "string option"
  callerName :: "string option"
  callerPhoto :: "string option"
  receiverId :: "string option"
  callType :: "call_type option"
  status :: "call_status option"
  createdAt :: "nat option"
  answeredAt :: "nat option"
  endedAt :: "nat option"
  duration :: "int option"

datatype signaling_type = offer | answer | ice_candidate | hangup

record CallSignaling =
  sig_callId :: string
  sig_type :: signaling_type
  sig_from :: "string option"
  sig_to :: "string option"
  sig_data :: payload
  sig_timestamp :: "nat option"

datatype track = audio_track | video_track

type_synonym media_stream = "track list"

text \<open>The values of \<open>RTCPeerConnection.signalingState\<close>.\<close>

datatype signaling_state =
  stable | have_local_offer | have_remote_offer
  | have_local_pranswer | have_remote_pranswer | closed

text \<open>
  The external engine (\<open>@stream-io/react-native-webrtc\<close>). \<open>getUserMedia n v\<close> is
  the outcome of the \<open>n\<close>-th media request of one \<open>startConnection\<close> (0 the request
  with the wanted constraints, 1 the audio-only retry), \<open>v\<close> telling whether video
  was asked for.
\<close>

record 'pc webrtc =
  getUserMedia :: "nat \<Rightarrow> bool \<Rightarrow> media_stream option"
  newPeerConnection :: "'pc"
  addTrack :: "track \<Rightarrow> 'pc \<Rightarrow> 'pc"
  createOffer :: "bool \<Rightarrow> 'pc \<Rightarrow> payload option"
  createAnswer :: "'pc \<Rightarrow> payload option"
  setLocalDescription :: "payload \<Rightarrow> 'pc \<Rightarrow> 'pc option"
  setRemoteDescription :: "payload \<Rightarrow> 'pc \<Rightarrow> 'pc option"
  addIceCandidate :: "payload \<Rightarrow> 'pc \<Rightarrow> 'pc option"
  signalingState :: "'pc \<Rightarrow> signaling_state"

datatype effect =
    GetUserMedia bool
  | NewPeerConnection
  | AddTrack track
  | CreateOffer bool
  | CreateAnswer
  | SetLocalDescription payload
  | SetRemoteDescription payload
  | AddIceCandidate payload
  | ClosePeerConnection
  | StopTrack track
  | ReleaseStream
  | Subscribe string string
  | Unsubscribe
  | SendSignaling CallSignaling
  | OnLocalStream "media_stream option"
  | OnRemoteStream "media_stream option"

text \<open>
  The fields of \<open>CallService\<close>. \<open>signalingUnsubscribe\<close> and the two callbacks are
  functions in the source; the model keeps whether they are set.
\<close>

record 'pc CallService =
  peerConnection :: "'pc option"
  localStream :: "media_stream option"
  remoteStream :: "media_stream option"
  signalingQueue :: "CallSignaling list"
  isProcessingSignal :: bool
  isRemoteDescriptionSet :: bool
  pendingCandidates :: "payload list"
  onRemoteStreamCallback :: bool
  onLocalStreamCallback :: bool
  signalingUnsubscribe :: bool
  currentCallId :: string
  trace :: "effect list"

definition emit :: "effect list \<Rightarrow> 'pc CallService \<Rightarrow> 'pc CallService" where
  "emit es s = s\<lparr>trace := trace s @ es\<rparr>"

text \<open>The state of a freshly constructed service (the field initialisers).\<close>

definition newCallService :: "'pc CallService" where
  "newCallService =
     \<lparr>peerConnection = None, localStream = None, remoteStream = None,
      signalingQueue = [], isProcessingSignal = False, isRemoteDescriptionSet = False,
      pendingCandidates = [], onRemoteStreamCallback = False,
      onLocalStreamCallback = False, signalingUnsubscribe = False,
      currentCallId = [], trace = []\<rparr>"

section \<open>Dispatch of one signaling message\<close>

text \<open>
  The \<open>for ... of\<close> loop of \<open>processPendingCandidates\<close>: one \<open>addIceCandidate\<close> per
  buffered candidate, each in its own \<open>try\<close>; a failure (also the \<open>TypeError\<close> of a
  missing peer connection) is logged and the loop goes on.
\<close>

fun addPendingCandidates ::
  "'pc webrtc \<Rightarrow> payload list \<Rightarrow> 'pc CallService \<Rightarrow> 'pc CallService" where
  "addPendingCandidates rtc [] s = s"
| "addPendingCandidates rtc (c # cs) s =
     addPendingCandidates rtc cs
       (case peerConnection s of
          None \<Rightarrow> s
        | Some pc \<Rightarrow>
            (case addIceCandidate rtc c pc of
               None \<Rightarrow> emit [AddIceCandidate c] s
             | Some pc' \<Rightarrow> (emit [AddIceCandidate c] s)\<lparr>peerConnection := Some pc'\<rparr>))"

definition processPendingCandidates :: "'pc webrtc \<Rightarrow> 'pc CallService \<Rightarrow> 'pc CallService" where
  "processPendingCandidates rtc s =
     (if pendingCandidates s = [] then s
      else (addPendingCandidates rtc (pendingCandidates s) s)\<lparr>pendingCandidates := []\<rparr>)"

text \<open>
  The tail of the \<open>offer\<close> branch, after the pending candidates: create the answer,
  install it, send it back. A rejected step leaves the rest undone (the outer
  \<open>catch\<close> logs it). \<open>sendSignaling\<close> catches its own errors and its result is
  ignored, so it is the effect \<open>SendSignaling\<close> only.
\<close>

definition answerOffer ::
  "'pc webrtc \<Rightarrow> CallSignaling \<Rightarrow> 'pc CallService \<Rightarrow> 'pc CallService" where
  "answerOffer rtc message s =
     (case peerConnection s of
        None \<Rightarrow> s
      | Some pc \<Rightarrow>
          (case createAnswer rtc pc of
             None \<Rightarrow> emit [CreateAnswer] s
           | Some a \<Rightarrow>
               (case setLocalDescription rtc a pc of
                  None \<Rightarrow> emit [CreateAnswer, SetLocalDescription a] s
                | Some pc' \<Rightarrow>
                    (emit [CreateAnswer, SetLocalDescription a,
                           SendSignaling
                             \<lparr>sig_callId = sig_callId message, sig_type = answer,
                              sig_from = sig_to message, sig_to = sig_from message,
                              sig_data = a, sig_timestamp = None\<rparr>] s)
                    \<lparr>peerConnection := Some pc'\<rparr>)))"

definition processSignalingMessage ::
  "'pc webrtc \<Rightarrow> CallSignaling \<Rightarrow> 'pc CallService \<Rightarrow> 'pc CallService" where
  "processSignalingMessage rtc message s =
     (case peerConnection s of
        None \<Rightarrow> s
      | Some pc \<Rightarrow>
          (case sig_type message of
             offer \<Rightarrow>
               (case setRemoteDescription rtc (sig_data message) pc of
                  None \<Rightarrow> emit [SetRemoteDescription (sig_data message)] s
                | Some pc' \<Rightarrow>
                    answerOffer rtc message
                      (processPendingCandidates rtc
                         ((emit [SetRemoteDescription (sig_data message)] s)
                            \<lparr>peerConnection := Some pc', isRemoteDescriptionSet := True\<rparr>)))
           | answer \<Rightarrow>
               (if signalingState rtc pc = have_local_offer then
                  (case setRemoteDescription rtc (sig_data message) pc of
                     None \<Rightarrow> emit [SetRemoteDescription (sig_data message)] s
                   | Some pc' \<Rightarrow>
                       processPendingCandidates rtc
                         ((emit [SetRemoteDescription (sig_data message)] s)
                            \<lparr>peerConnection := Some pc', isRemoteDescriptionSet := True\<rparr>))
                else s)
           | ice_candidate \<Rightarrow>
               (if isRemoteDescriptionSet s then
                  (case addIceCandidate rtc (sig_data message) pc of
                     None \<Rightarrow> emit [AddIceCandidate (sig_data message)] s
                   | Some pc' \<Rightarrow>
                       (emit [AddIceCandidate (sig_data message)] s)\<lparr>peerConnection := Some pc'\<rparr>)
                else s\<lparr>pendingCandidates := pendingCandidates s @ [sig_data message]\<rparr>)
           | hangup \<Rightarrow> s))"

section \<open>Teardown and start of a negotiation session\<close>

text \<open>
  \<open>closeWebRTCConnection\<close> has no \<open>await\<close>: it runs to its end when called. Its
  parameter is not used by the body. The body is five blocks in a row, each a
  function here: stop listening, stop the local stream (\<open>release\<close> exists on the
  streams of the engine), close the peer connection, clear the negotiation state,
  tell the observer of the remote stream.
\<close>

definition stopListening :: "'pc CallService \<Rightarrow> 'pc CallService" where
  "stopListening s =
     (if signalingUnsubscribe s
      then (emit [Unsubscribe] s)\<lparr>signalingUnsubscribe := False\<rparr> else s)"

definition stopLocalStream :: "'pc CallService \<Rightarrow> 'pc CallService" where
  "stopLocalStream s =
     (case localStream s of
        None \<Rightarrow> s
      | Some stream \<Rightarrow>
          (emit (map StopTrack stream @ [ReleaseStream] @
                 (if onLocalStreamCallback s then [OnLocalStream None] else [])) s)
          \<lparr>localStream := None\<rparr>)"

definition closePeerConnection :: "'pc CallService \<Rightarrow> 'pc CallService" where
  "closePeerConnection s =
     (case peerConnection s of
        None \<Rightarrow> s
      | Some pc \<Rightarrow> (emit [ClosePeerConnection] s)\<lparr>peerConnection := None\<rparr>)"

definition clearNegotiation :: "'pc CallService \<Rightarrow> 'pc CallService" where
  "clearNegotiation s =
     s\<lparr>remoteStream := None, isRemoteDescriptionSet := False,
       pendingCandidates := [], signalingQueue := []\<rparr>"

definition notifyRemoteStreamGone :: "'pc CallService \<Rightarrow> 'pc CallService" where
  "notifyRemoteStreamGone s =
     (if onRemoteStreamCallback s then emit [OnRemoteStream None] s else s)"

definition closeWebRTCConnection :: "string \<Rightarrow> 'pc CallService \<Rightarrow> 'pc CallService" where
  "closeWebRTCConnection cid s =
     notifyRemoteStreamGone
       (clearNegotiation (closePeerConnection (stopLocalStream (stopListening s))))"

text \<open>What \<open>closeWebRTCConnection\<close> leaves behind: nothing subscribed, no stream, no
  peer connection, no negotiation state.\<close>

definition tornDown :: "'pc CallService \<Rightarrow> bool" where
  "tornDown s =
     (\<not> signalingUnsubscribe s \<and> localStream s = None \<and> peerConnection s = None \<and>
      remoteStream s = None \<and> \<not> isRemoteDescriptionSet s \<and>
      pendingCandidates s = [] \<and> signalingQueue s = [])"

definition cleanup :: "'pc CallService \<Rightarrow> 'pc CallService" where
  "cleanup s = closeWebRTCConnection (currentCallId s) s"

text \<open>
  The two media requests of \<open>startConnection\<close>: the wanted constraints first and,
  when that promise rejects, \<open>{ audio: true, video: false }\<close>. The result is the
  requests made and the stream, \<open>None\<close> when the second request rejects too.
\<close>

definition acquireMedia :: "'pc webrtc \<Rightarrow> bool \<Rightarrow> effect list \<times> media_stream option" where
  "acquireMedia rtc isVideoCall =
     (case getUserMedia rtc 0 isVideoCall of
        Some stream \<Rightarrow> ([GetUserMedia isVideoCall], Some stream)
      | None \<Rightarrow> ([GetUserMedia isVideoCall, GetUserMedia False], getUserMedia rtc 1 False))"

text \<open>The caller's part of \<open>startConnection\<close>: create, install and send the offer.\<close>

definition sendOffer ::
  "'pc webrtc \<Rightarrow> string \<Rightarrow> string \<Rightarrow> string option \<Rightarrow> bool \<Rightarrow> 'pc CallService \<Rightarrow> 'pc CallService" where
  "sendOffer rtc cid userId otherUserId isVideoCall s =
     (case peerConnection s of
        None \<Rightarrow> cleanup s
      | Some pc \<Rightarrow>
          (case createOffer rtc isVideoCall pc of
             None \<Rightarrow> cleanup (emit [CreateOffer isVideoCall] s)
           | Some d \<Rightarrow>
               (case setLocalDescription rtc d pc of
                  None \<Rightarrow> cleanup (emit [CreateOffer isVideoCall, SetLocalDescription d] s)
                | Some pc' \<Rightarrow>
                    (emit [CreateOffer isVideoCall, SetLocalDescription d,
                           SendSignaling
                             \<lparr>sig_callId = cid, sig_type = offer, sig_from = Some userId,
                              sig_to = otherUserId, sig_data = d, sig_timestamp = None\<rparr>] s)
                    \<lparr>peerConnection := Some pc'\<rparr>)))"

text \<open>
  \<open>startConnection\<close> returns \<open>Promise<void>\<close> and its body is one \<open>try\<close> whose
  \<open>catch\<close> logs and calls \<open>cleanup\<close>: the result is the state alone. The audio-mode
  call has its own \<open>try\<close> and touches no field; the two handlers set on the peer
  connection run only when the engine fires them. The constructor of the peer
  connection, \<open>addTrack\<close> and \<open>onSnapshot\<close> are taken to return.
\<close>

definition startConnection ::
  "'pc webrtc \<Rightarrow> string \<Rightarrow> string \<Rightarrow> string option \<Rightarrow> bool \<Rightarrow> bool \<Rightarrow>
   'pc CallService \<Rightarrow> 'pc CallService" where
  "startConnection rtc cid userId otherUserId isCaller isVideoCall s =
     (if peerConnection s \<noteq> None then s
      else
        (case acquireMedia rtc isVideoCall of
           (requests, None) \<Rightarrow> cleanup (emit requests s)
         | (requests, Some stream) \<Rightarrow>
             (let s1 = (emit (requests @
                              (if onLocalStreamCallback s then [OnLocalStream (Some stream)] else []) @
                              [NewPeerConnection] @ map AddTrack stream @
                              [Subscribe cid userId]) s)
                       \<lparr>localStream := Some stream,
                        peerConnection := Some (fold (addTrack rtc) stream (newPeerConnection rtc)),
                        signalingUnsubscribe := True\<rparr>
              in if isCaller then sendOffer rtc cid userId otherUserId isVideoCall s1 else s1)))"

text \<open>
  \<open>startConnection\<close> at its first suspension. The guard is read when the call is
  made; the field \<open>peerConnection\<close> is assigned only after the media promise has
  settled. \<open>startConnection_begin\<close> is the part up to \<open>await getUserMedia\<close>: \<open>None\<close>
  when the guard makes the call return, else the state with the request made.
  \<open>startConnection_resume\<close> is the rest of the body, from the settling of that
  promise on.
\<close>

definition startConnection_begin :: "bool \<Rightarrow> 'pc CallService \<Rightarrow> 'pc CallService option" where
  "startConnection_begin isVideoCall s =
     (if peerConnection s \<noteq> None then None else Some (emit [GetUserMedia isVideoCall] s))"

definition startConnection_resume ::
  "'pc webrtc \<Rightarrow> string \<Rightarrow> string \<Rightarrow> string option \<Rightarrow> bool \<Rightarrow> bool \<Rightarrow>
   'pc CallService \<Rightarrow> 'pc CallService" where
  "startConnection_resume rtc cid userId otherUserId isCaller isVideoCall s =
     (case (case getUserMedia rtc 0 isVideoCall of
              Some stream \<Rightarrow> ([], Some stream)
            | None \<Rightarrow> ([GetUserMedia False], getUserMedia rtc 1 False)) of
        (retry, None) \<Rightarrow> cleanup (emit retry s)
      | (retry, Some stream) \<Rightarrow>
          (let s1 = (emit (retry @
                           (if onLocalStreamCallback s then [OnLocalStream (Some stream)] else []) @
                           [NewPeerConnection] @ map AddTrack stream @
                           [Subscribe cid userId]) s)
                    \<lparr>localStream := Some stream,
                     peerConnection := Some (fold (addTrack rtc) stream (newPeerConnection rtc)),
                     signalingUnsubscribe := True\<rparr>
           in if isCaller then sendOffer rtc cid userId otherUserId isVideoCall s1 else s1))"

text \<open>
  Two calls of \<open>startConnection\<close> with the same arguments, the second made while
  the first is suspended in \<open>await getUserMedia\<close>: each reads the guard when it is
  made, then the two bodies resume in the order of the calls.
\<close>

definition startConnection_overlapping ::
  "'pc webrtc \<Rightarrow> string \<Rightarrow> string \<Rightarrow> string option \<Rightarrow> bool \<Rightarrow> bool \<Rightarrow>
   'pc CallService \<Rightarrow> 'pc CallService" where
  "startConnection_overlapping rtc cid userId otherUserId isCaller isVideoCall s =
     (case startConnection_begin isVideoCall s of
        None \<Rightarrow> s
      | Some s1 \<Rightarrow>
          (case startConnection_begin isVideoCall s1 of
             None \<Rightarrow> startConnection_resume rtc cid userId otherUserId isCaller isVideoCall s1
           | Some s2 \<Rightarrow>
               startConnection_resume rtc cid userId otherUserId isCaller isVideoCall
                 (startConnection_resume rtc cid userId otherUserId isCaller isVideoCall s2)))"

section \<open>The call record\<close>

text \<open>
  The collection \<open>calls\<close> of the store, the server's clock (what \<open>serverTimestamp()\<close>
  becomes, read anew by every write) and whether the store answers: \<open>getDoc\<close>
  rejects when it is not readable, \<open>setDoc\<close> when it is not writable. The clock is
  moved by the world between calls (\<open>db\<lparr>clock := t\<rparr>\<close>), never by the service.
\<close>

record Firestore =
  calls :: "string \<Rightarrow> CallOffer option"
  clock :: nat
  readable :: bool
  writable :: bool

definition emptyDoc :: CallOffer where
  "emptyDoc =
     \<lparr>callId = None, callerId = None, callerName = None, callerPhoto = None,
      receiverId = None, callType = None, status = None, createdAt = None,
      answeredAt = None, endedAt = None, duration = None\<rparr>"

text \<open>\<open>setDoc(ref, patch, { merge: true })\<close>: the fields of the patch are written over the stored
  document, which is created when absent.\<close>

definition mergeDoc :: "string \<Rightarrow> (CallOffer \<Rightarrow> CallOffer) \<Rightarrow> Firestore \<Rightarrow> Firestore" where
  "mergeDoc cid patch db =
     db\<lparr>calls := (calls db)(cid \<mapsto> patch (case calls db cid of None \<Rightarrow> emptyDoc | Some d \<Rightarrow> d))\<rparr>"

text \<open>
  The result objects \<open>{ success, error }\<close>. The source's error texts are: "the call
  does not exist" (\<open>CallNotFound\<close>), "the call is no longer active"
  (\<open>CallNotActive\<close>), and the message of a caught exception (\<open>TransportError\<close>).
\<close>

datatype call_error = CallNotFound | CallNotActive | TransportError

datatype call_result = Success | Failure call_error

definition acceptCall ::
  "'pc webrtc \<Rightarrow> string \<Rightarrow> string \<Rightarrow> Firestore \<Rightarrow> 'pc CallService \<Rightarrow>
   call_result \<times> Firestore \<times> 'pc CallService" where
  "acceptCall rtc cid userId db s =
     (let s1 = s\<lparr>currentCallId := cid\<rparr>
      in if \<not> readable db then (Failure TransportError, db, s1)
         else
           (case calls db cid of
              None \<Rightarrow> (Failure CallNotFound, db, s1)
            | Some callData \<Rightarrow>
                if status callData \<noteq> Some ringing then (Failure CallNotActive, db, s1)
                else if \<not> writable db then (Failure TransportError, db, s1)
                else
                  (Success,
                   mergeDoc cid (\<lambda>d. d\<lparr>status := Some answered, answeredAt := Some (clock db)\<rparr>) db,
                   startConnection rtc cid userId (callerId callData) False
                     (callType callData = Some video) s1)))"

definition rejectCall :: "string \<Rightarrow> Firestore \<Rightarrow> call_result \<times> Firestore" where
  "rejectCall cid db =
     (if \<not> writable db then (Failure TransportError, db)
      else (Success,
            mergeDoc cid (\<lambda>d. d\<lparr>status := Some rejected, endedAt := Some (clock db)\<rparr>) db))"

definition endCall ::
  "string \<Rightarrow> int option \<Rightarrow> Firestore \<Rightarrow> 'pc CallService \<Rightarrow>
   call_result \<times> Firestore \<times> 'pc CallService" where
  "endCall cid dur db s =
     (if \<not> writable db then (Failure TransportError, db, s)
      else (Success,
            mergeDoc cid
              (\<lambda>d. d\<lparr>status := Some ended, endedAt := Some (clock db),
                     duration := Some (case dur of None \<Rightarrow> 0 | Some n \<Rightarrow> n)\<rparr>) db,
            closeWebRTCConnection cid s))"

section \<open>The signaling queue\<close>

text \<open>
  \<open>processSignalingQueue\<close> when nothing else happens while it runs: every \<open>await\<close>
  of the loop settles before the next message is delivered. The loop test and the
  body are those of the source; \<open>shift()\<close> takes the head of the queue.
\<close>

function processSignalingQueue :: "'pc webrtc \<Rightarrow> 'pc CallService \<Rightarrow> 'pc CallService" where
  "processSignalingQueue rtc s =
     (case signalingQueue s of
        [] \<Rightarrow> s
      | message # rest \<Rightarrow>
          if isProcessingSignal s then s
          else processSignalingQueue rtc
                 ((processSignalingMessage rtc message
                     (s\<lparr>isProcessingSignal := True, signalingQueue := rest\<rparr>))
                  \<lparr>isProcessingSignal := False\<rparr>))"
  by pat_completeness auto
termination
proof (relation "measure (\<lambda>(rtc, s). length (signalingQueue s))", goal_cases)
  case 1
  show ?case by simp
next
  case (2 rtc s message rest)
  have pending: "signalingQueue (addPendingCandidates rtc cs t) = signalingQueue t" for cs t
    by (induction cs arbitrary: t) (simp_all add: emit_def split: option.splits)
  have flush: "signalingQueue (processPendingCandidates rtc t) = signalingQueue t" for t
    by (simp add: processPendingCandidates_def pending)
  have reply: "signalingQueue (answerOffer rtc message t) = signalingQueue t" for t
    by (simp add: answerOffer_def emit_def split: option.splits)
  have "signalingQueue (processSignalingMessage rtc message t) = signalingQueue t" for t
    by (simp add: processSignalingMessage_def flush reply emit_def
          split: option.splits signaling_type.splits)
  with 2 show ?case by simp
qed

text \<open>
  The class declares \<open>handleSignalingMessage\<close> twice. A later method of the same
  name replaces the earlier one on the class, so the member that every caller
  reaches (the snapshot listener of \<open>subscribeToSignalingMessages\<close> and the
  provider) is the second declaration.

  This is the first declaration (\<open>private async\<close>): enqueue, and drain unless a
  drain is at work. No call of the running program reaches this body.
\<close>

definition handleSignalingMessage_private ::
  "'pc webrtc \<Rightarrow> CallSignaling \<Rightarrow> 'pc CallService \<Rightarrow> 'pc CallService" where
  "handleSignalingMessage_private rtc message s =
     (let s1 = s\<lparr>signalingQueue := signalingQueue s @ [message]\<rparr>
      in if \<not> isProcessingSignal s1 then processSignalingQueue rtc s1 else s1)"

text \<open>
  The second declaration (\<open>async\<close>, public), the member the class has. Its body is
  \<open>await this.handleSignalingMessage(message)\<close>, a call of itself that is made before
  anything is awaited, so every call nests one more frame on the engine's call
  stack. \<open>frames\<close> is the number of further frames the stack can take. When none
  is left the inner call throws \<open>RangeError\<close> inside the body, whose promise
  rejects; each enclosing body awaits a rejected promise and rejects in turn. The
  result is how the promise settles and the state the service is left in.
\<close>

datatype js_error = RangeError

datatype settled = Resolved | Rejected js_error

fun handleSignalingMessage_public ::
  "nat \<Rightarrow> CallSignaling \<Rightarrow> 'pc CallService \<Rightarrow> settled \<times> 'pc CallService" where
  "handleSignalingMessage_public 0 message s = (Rejected RangeError, s)"
| "handleSignalingMessage_public (Suc frames) message s =
     (case handleSignalingMessage_public frames message s of
        (Resolved, s') \<Rightarrow> (Resolved, s')
      | (Rejected e, s') \<Rightarrow> (Rejected e, s'))"

text \<open>
  The listener that \<open>subscribeToSignalingMessages\<close> gives to \<open>onSnapshot\<close>, for one
  added message: it calls \<open>this.handleSignalingMessage(message)\<close>, does not await
  the promise and returns.
\<close>

definition signalingListener :: "nat \<Rightarrow> CallSignaling \<Rightarrow> 'pc CallService \<Rightarrow> 'pc CallService" where
  "signalingListener frames message s = snd (handleSignalingMessage_public frames message s)"

section \<open>The queue under interleaved deliveries\<close>

text \<open>
  The queue as it is written, fed through the first declaration of
  \<open>handleSignalingMessage\<close>. Its methods are \<open>async\<close>: while a dispatch waits on
  the engine, or the loop waits in its 50 ms pause, further messages may be
  handed over, and each delivery runs the body of the first declaration up to its
  first \<open>await\<close>. (In the class as it stands the listener reaches the second
  declaration, so the running program makes no delivery: its sessions are the
  ones of the empty schedule.) A session is the service together with the suspended parts of the
  drain loops: the messages whose dispatch has begun and not settled, one per loop
  that is inside \<open>await this.processSignalingMessage(message)\<close>, and the number of
  loops inside the pause. Nothing in the record limits either of them.

  A dispatch touches the peer connection, the candidate buffer, the flag
  \<open>isRemoteDescriptionSet\<close> and the trace; a delivery touches only the queue. The
  effect of a dispatch is therefore applied as a whole at the moment it settles.
\<close>

record 'pc session =
  service :: "'pc CallService"
  dispatching :: "CallSignaling list"
  pausing :: nat

datatype event = Deliver CallSignaling | Settle nat | Resume

text \<open>The loop test of \<open>processSignalingQueue\<close> and one iteration up to its \<open>await\<close>;
  when the test fails the loop is over.\<close>

definition drainNext :: "'pc session \<Rightarrow> 'pc session" where
  "drainNext \<sigma> =
     (case signalingQueue (service \<sigma>) of
        [] \<Rightarrow> \<sigma>
      | message # rest \<Rightarrow>
          if isProcessingSignal (service \<sigma>) then \<sigma>
          else \<sigma>\<lparr>service := (service \<sigma>)\<lparr>isProcessingSignal := True, signalingQueue := rest\<rparr>,
                 dispatching := dispatching \<sigma> @ [message]\<rparr>)"

text \<open>
  \<open>Deliver m\<close>: the body of the first \<open>handleSignalingMessage\<close> runs on \<open>m\<close>.
  \<open>Settle i\<close>: the \<open>i\<close>-th suspended dispatch settles; its loop clears the flag and
  pauses when the queue is not empty, else tests the loop condition at once.
  \<open>Resume\<close>: a pause ends and its loop tests the loop condition.
  An event that cannot happen in the state gives \<open>None\<close>.
\<close>

fun step :: "'pc webrtc \<Rightarrow> event \<Rightarrow> 'pc session \<Rightarrow> 'pc session option" where
  "step rtc (Deliver m) \<sigma> =
     (let \<sigma>1 = \<sigma>\<lparr>service := (service \<sigma>)\<lparr>signalingQueue := signalingQueue (service \<sigma>) @ [m]\<rparr>\<rparr>
      in Some (if \<not> isProcessingSignal (service \<sigma>1) then drainNext \<sigma>1 else \<sigma>1))"
| "step rtc (Settle i) \<sigma> =
     (if i < length (dispatching \<sigma>) then
        (let \<sigma>1 = \<sigma>\<lparr>service := (processSignalingMessage rtc (dispatching \<sigma> ! i) (service \<sigma>))
                                   \<lparr>isProcessingSignal := False\<rparr>,
                      dispatching := take i (dispatching \<sigma>) @ drop (Suc i) (dispatching \<sigma>)\<rparr>
         in Some (if signalingQueue (service \<sigma>1) \<noteq> []
                  then \<sigma>1\<lparr>pausing := Suc (pausing \<sigma>1)\<rparr> else drainNext \<sigma>1))
      else None)"
| "step rtc Resume \<sigma> =
     (if 0 < pausing \<sigma> then Some (drainNext (\<sigma>\<lparr>pausing := pausing \<sigma> - 1\<rparr>)) else None)"

fun run :: "'pc webrtc \<Rightarrow> event list \<Rightarrow> 'pc session \<Rightarrow> 'pc session option" where
  "run rtc [] \<sigma> = Some \<sigma>"
| "run rtc (e # es) \<sigma> = (case step rtc e \<sigma> of None \<Rightarrow> None | Some \<sigma>' \<Rightarrow> run rtc es \<sigma>')"

text \<open>The messages a schedule delivers, in the order of delivery.\<close>

fun delivered :: "event list \<Rightarrow> CallSignaling list" where
  "delivered [] = []"
| "delivered (Deliver m # es) = m # delivered es"
| "delivered (e # es) = delivered es"

text \<open>A session with no drain loop at work, and a session that has come to rest.\<close>

definition idle :: "'pc CallService \<Rightarrow> 'pc session" where
  "idle s = \<lparr>service = s, dispatching = [], pausing = 0\<rparr>"

definition quiescent :: "'pc session \<Rightarrow> bool" where
  "quiescent \<sigma> = (signalingQueue (service \<sigma>) = [] \<and> dispatching \<sigma> = [])"

text \<open>The reference of the comparison: one message after the other, each applied by
  \<open>processSignalingMessage\<close> before the next is looked at.\<close>

definition applySynchronously ::
  "'pc webrtc \<Rightarrow> CallSignaling list \<Rightarrow> 'pc CallService \<Rightarrow> 'pc CallService" where
  "applySynchronously rtc ms s = foldl (\<lambda>t m. processSignalingMessage rtc m t) s ms"

text \<open>The events that bring a session to rest when nothing more is delivered: the
  dispatch under way settles, then one pause ends and one dispatch settles per
  queued message.\<close>

definition settleAll :: "'pc session \<Rightarrow> event list" where
  "settleAll \<sigma> =
     (if dispatching \<sigma> = [] then [] else [Settle 0]) @
     concat (replicate (length (signalingQueue (service \<sigma>))) [Resume, Settle 0])"

text \<open>
  What holds of every session that deliveries, settlements and resumptions can
  reach: the flag is set exactly while a dispatch is under way, at most one is,
  and a message that waits has a loop that will take it (one in a dispatch or one
  in its pause). The backlog is the work not yet applied, in the order in which
  it will be.
\<close>

definition steady :: "'pc session \<Rightarrow> bool" where
  "steady \<sigma> =
     ((isProcessingSignal (service \<sigma>) \<longleftrightarrow> dispatching \<sigma> \<noteq> []) \<and>
      length (dispatching \<sigma>) \<le> 1 \<and>
      (signalingQueue (service \<sigma>) = [] \<or> dispatching \<sigma> \<noteq> [] \<or> 0 < pausing \<sigma>))"

definition backlog :: "'pc session \<Rightarrow> CallSignaling list" where
  "backlog \<sigma> = dispatching \<sigma> @ signalingQueue (service \<sigma>)"

text \<open>The two fields of the queue set at once (used to state what a dispatch leaves
  alone).\<close>

definition requeue :: "CallSignaling list \<Rightarrow> bool \<Rightarrow> 'pc CallService \<Rightarrow> 'pc CallService" where
  "requeue q b s = s\<lparr>signalingQueue := q, isProcessingSignal := b\<rparr>"

section \<open>The provider's listener for incoming calls\<close>

text \<open>
  \<open>CallProvider\<close> is a React function component. \<open>activeCall\<close> (the call of the
  managed SDK, here whether there is one) and \<open>manualCall\<close> are state variables:
  constants of one render, replaced by the next render. The listener given to
  \<open>subscribeToIncomingCalls\<close> is created inside an effect whose dependency list is
  \<open>[user]\<close>; the effect runs after a render in which the user has changed, and the
  listener it creates reads the \<open>activeCall\<close> and \<open>manualCall\<close> of that render until
  the user changes again. \<open>seen_activeCall\<close> and \<open>seen_manualCall\<close> are these two
  captured values; \<open>ringtone\<close> tells whether \<open>playRingtone\<close> was the last call on the
  sound service.
\<close>

record CallProvider =
  activeCall :: bool
  manualCall :: "CallOffer option"
  ringtone :: bool
  seen_activeCall :: bool
  seen_manualCall :: "CallOffer option"

text \<open>The provider before any user is signed in (the initial values of \<open>useState\<close>).\<close>

definition newCallProvider :: CallProvider where
  "newCallProvider =
     \<lparr>activeCall = False, manualCall = None, ringtone = False,
      seen_activeCall = False, seen_manualCall = None\<rparr>"

text \<open>The effect of the dependency list \<open>[user]\<close>: it subscribes the listener, which
  closes over the render's two values, stops all sounds and clears \<open>manualCall\<close>.\<close>

definition subscribeEffect :: "CallProvider \<Rightarrow> CallProvider" where
  "subscribeEffect p =
     p\<lparr>seen_activeCall := activeCall p, seen_manualCall := manualCall p,
       ringtone := False, manualCall := None\<rparr>"

definition setManualCall :: "CallOffer option \<Rightarrow> CallProvider \<Rightarrow> CallProvider" where
  "setManualCall c p = p\<lparr>manualCall := c\<rparr>"

text \<open>
  The listener. \<open>rejectCall\<close> is not awaited and its result is dropped; with an
  \<open>undefined\<close> id its \<open>doc(...)\<close> throws inside its \<open>try\<close> and nothing is
  written. The 45 s timer armed at the end is not part of the state.
\<close>

definition onIncomingCall :: "CallOffer \<Rightarrow> Firestore \<Rightarrow> CallProvider \<Rightarrow> Firestore \<times> CallProvider" where
  "onIncomingCall call db p =
     (let isManualBusy =
            (case seen_manualCall p of
               None \<Rightarrow> False
             | Some mc \<Rightarrow>
                 (status mc = Some ringing \<or> status mc = Some answered) \<and> callId mc \<noteq> callId call)
      in if seen_activeCall p \<or> isManualBusy then
           (case callId call of None \<Rightarrow> (db, p) | Some cid \<Rightarrow> (snd (rejectCall cid db), p))
         else (db, p\<lparr>ringtone := True, manualCall := Some call\<rparr>))"

section \<open>A concrete engine\<close>

text \<open>
  An engine to run the functions on: a peer connection is its signaling state, a
  description moves it as offer and answer do, an empty candidate is refused, and
  media are granted. \<open>noMedia\<close> is the same engine with every media request refused.
\<close>

definition jsep :: "signaling_state webrtc" where
  "jsep =
     \<lparr>getUserMedia = (\<lambda>n v. Some (if v then [audio_track, video_track] else [audio_track])),
      newPeerConnection = stable,
      addTrack = (\<lambda>t pc. pc),
      createOffer = (\<lambda>v pc. if pc = stable then Some ''sdp-offer'' else None),
      createAnswer = (\<lambda>pc. if pc = have_remote_offer then Some ''sdp-answer'' else None),
      setLocalDescription =
        (\<lambda>d pc. if pc = stable then Some have_local_offer
                 else if pc = have_remote_offer then Some stable else None),
      setRemoteDescription =
        (\<lambda>d pc. if pc = stable then Some have_remote_offer
                 else if pc = have_local_offer then Some stable else None),
      addIceCandidate = (\<lambda>c pc. if c = [] then None else Some pc),
      signalingState = (\<lambda>pc. pc)\<rparr>"

definition noMedia :: "signaling_state webrtc" where
  "noMedia = jsep\<lparr>getUserMedia := (\<lambda>n v. None)\<rparr>"

text \<open>A call document as \<open>initiateCall\<close> writes it, and a message of each kind.\<close>

definition ringingCall :: "string \<Rightarrow> string \<Rightarrow> string \<Rightarrow> CallOffer" where
  "ringingCall cid caller receiver =
     emptyDoc\<lparr>callId := Some cid, callerId := Some caller, callerName := Some caller,
              receiverId := Some receiver, callType := Some voice, status := Some ringing,
              createdAt := Some 0\<rparr>"

definition signal :: "signaling_type \<Rightarrow> payload \<Rightarrow> CallSignaling" where
  "signal ty d =
     \<lparr>sig_callId = ''call_1'', sig_type = ty, sig_from = Some ''alice'', sig_to = Some ''bob'',
      sig_data = d, sig_timestamp = None\<rparr>"

text \<open>A store that answers, with the given documents and server time.\<close>

definition store :: "(string \<times> CallOffer) list \<Rightarrow> nat \<Rightarrow> Firestore" where
  "store docs t = \<lparr>calls = map_of docs, clock = t, readable = True, writable = True\<rparr>"

definition endedCall :: CallOffer where
  "endedCall = (ringingCall ''call_1'' ''alice'' ''bob'')\<lparr>status := Some ended, endedAt := Some 3\<rparr>"

definition rejectedCall :: CallOffer where
  "rejectedCall = (ringingCall ''call_1'' ''alice'' ''bob'')\<lparr>status := Some rejected, endedAt := Some 3\<rparr>"

text \<open>
  Sessions of a voice call between \<open>alice\<close> (caller) and \<open>bob\<close> (callee): each side
  after \<open>startConnection\<close>, the caller after the answer, the callee after one and
  two candidates that came before the offer.
\<close>

definition calleeSession :: "signaling_state CallService" where
  "calleeSession = startConnection jsep ''call_1'' ''bob'' (Some ''alice'') False False newCallService"

definition callerSession :: "signaling_state CallService" where
  "callerSession = startConnection jsep ''call_1'' ''alice'' (Some ''bob'') True False newCallService"

definition answeredSession :: "signaling_state CallService" where
  "answeredSession = processSignalingMessage jsep (signal answer ''sdp-answer'') callerSession"

definition oneBuffered :: "signaling_state CallService" where
  "oneBuffered = processSignalingMessage jsep (signal ice_candidate ''cand-1'') calleeSession"

definition twoBuffered :: "signaling_state CallService" where
  "twoBuffered = processSignalingMessage jsep (signal ice_candidate ''cand-2'') oneBuffered"

text \<open>
  A store in which \<open>call_1\<close> is ringing; and \<open>bob\<close>, signed in, who has placed the
  call \<open>call_A\<close> to \<open>carol\<close> (it is ringing) when \<open>alice\<close>'s call \<open>call_B\<close> comes in.
\<close>

definition ringingStore :: Firestore where
  "ringingStore = store [(''call_1'', ringingCall ''call_1'' ''alice'' ''bob'')] 5"

definition placedCall :: CallOffer where
  "placedCall = ringingCall ''call_A'' ''bob'' ''carol''"

definition incomingCall :: CallOffer where
  "incomingCall = ringingCall ''call_B'' ''alice'' ''bob''"

definition busyProvider :: CallProvider where
  "busyProvider = setManualCall (Some placedCall) (subscribeEffect newCallProvider)"

definition busyStore :: Firestore where
  "busyStore = store [(''call_A'', placedCall), (''call_B'', incomingCall)] 7"

text \<open>
  A schedule on the callee's side: two candidates are delivered before the offer,
  the first dispatch settles, and the offer is delivered during the pause that
  follows, which starts a second drain loop; the whole negotiation lets the
  paused loop resume (it finds the flag set and ends) and the rest settle.
\<close>

definition earlyCandidates :: "event list" where
  "earlyCandidates =
     [Deliver (signal ice_candidate ''cand-1''), Deliver (signal ice_candidate ''cand-2''),
      Settle 0, Deliver (signal offer ''sdp-offer'')]"

definition wholeNegotiation :: "event list" where
  "wholeNegotiation = earlyCandidates @ [Resume, Settle 0, Resume, Settle 0]"

definition negotiated :: "signaling_state CallService" where
  "negotiated = processSignalingMessage jsep (signal offer ''sdp-offer'') twoBuffered"

section \<open>The concrete sessions, evaluated\<close>

lemma calleeSession_eq:
  "calleeSession =
     \<lparr>peerConnection = Some stable, localStream = Some [audio_track], remoteStream = None,
      signalingQueue = [], isProcessingSignal = False, isRemoteDescriptionSet = False,
      pendingCandidates = [], onRemoteStreamCallback = False,
      onLocalStreamCallback = False, signalingUnsubscribe = True,
      currentCallId = [],
      trace = [GetUserMedia False, NewPeerConnection, AddTrack audio_track,
               Subscribe ''call_1'' ''bob'']\<rparr>"
  by (simp add: calleeSession_def startConnection_def acquireMedia_def jsep_def newCallService_def emit_def)

lemma callerSession_eq:
  "callerSession =
     \<lparr>peerConnection = Some have_local_offer, localStream = Some [audio_track], remoteStream = None,
      signalingQueue = [], isProcessingSignal = False, isRemoteDescriptionSet = False,
      pendingCandidates = [], onRemoteStreamCallback = False,
      onLocalStreamCallback = False, signalingUnsubscribe = True,
      currentCallId = [],
      trace = [GetUserMedia False, NewPeerConnection, AddTrack audio_track,
               Subscribe ''call_1'' ''alice'', CreateOffer False, SetLocalDescription ''sdp-offer'',
               SendSignaling \<lparr>sig_callId = ''call_1'', sig_type = offer, sig_from = Some ''alice'',
                  sig_to = Some ''bob'', sig_data = ''sdp-offer'', sig_timestamp = None\<rparr>]\<rparr>"
  by (simp add: callerSession_def startConnection_def sendOffer_def acquireMedia_def jsep_def newCallService_def emit_def)

lemma answeredSession_eq:
  "answeredSession =
     callerSession\<lparr>peerConnection := Some stable, isRemoteDescriptionSet := True,
                   trace := trace callerSession @ [SetRemoteDescription ''sdp-answer'']\<rparr>"
  by (simp add: answeredSession_def processSignalingMessage_def processPendingCandidates_def
        signal_def callerSession_eq jsep_def emit_def)

lemma oneBuffered_eq: "oneBuffered = calleeSession\<lparr>pendingCandidates := [''cand-1'']\<rparr>"
  by (simp add: oneBuffered_def processSignalingMessage_def signal_def calleeSession_eq)

lemma twoBuffered_eq: "twoBuffered = calleeSession\<lparr>pendingCandidates := [''cand-1'', ''cand-2'']\<rparr>"
  by (simp add: twoBuffered_def oneBuffered_eq processSignalingMessage_def signal_def calleeSession_eq)

section \<open>What a dispatch does to the trace and the candidate buffer\<close>

lemma addPending_trace:
  "peerConnection s \<noteq> None \<Longrightarrow>
   trace (addPendingCandidates rtc cs s) = trace s @ map AddIceCandidate cs \<and>
   peerConnection (addPendingCandidates rtc cs s) \<noteq> None \<and>
   pendingCandidates (addPendingCandidates rtc cs s) = pendingCandidates s \<and>
   isRemoteDescriptionSet (addPendingCandidates rtc cs s) = isRemoteDescriptionSet s"
proof (induction cs arbitrary: s)
  case Nil
  show ?case using Nil by simp
next
  case (Cons c cs)
  from Cons.prems obtain pc where pc: "peerConnection s = Some pc" by auto
  show ?case
  proof (cases "addIceCandidate rtc c pc")
    case None
    then show ?thesis using pc Cons.IH [of "emit [AddIceCandidate c] s"]
      by (simp add: emit_def)
  next
    case (Some pc')
    then show ?thesis
      using pc Cons.IH [of "(emit [AddIceCandidate c] s)\<lparr>peerConnection := Some pc'\<rparr>"]
      by (simp add: emit_def)
  qed
qed

lemma processPending_flush:
  "peerConnection s \<noteq> None \<Longrightarrow>
   trace (processPendingCandidates rtc s) = trace s @ map AddIceCandidate (pendingCandidates s) \<and>
   peerConnection (processPendingCandidates rtc s) \<noteq> None \<and>
   pendingCandidates (processPendingCandidates rtc s) = [] \<and>
   isRemoteDescriptionSet (processPendingCandidates rtc s) = isRemoteDescriptionSet s"
  using addPending_trace [of s rtc "pendingCandidates s"]
  by (simp add: processPendingCandidates_def)


section \<open>Candidates that arrive before the remote description\<close>



section \<open>Answers outside \<open>have-local-offer\<close>\<close>

text \<open>
  C4. The dispatch of an \<open>answer\<close> message leaves the whole service state as it
  was (peer connection, flags, buffer and trace: no call is made on the engine)
  unless there is a peer connection whose \<open>signalingState\<close> is \<open>have-local-offer\<close>;
  when there is one, the next call on the engine is \<open>setRemoteDescription\<close> with
  the message's description.
\<close>

theorem answer_only_when_awaited:
  assumes "sig_type m = answer"
  shows "((\<forall>pc. peerConnection s = Some pc \<longrightarrow> signalingState rtc pc \<noteq> have_local_offer) \<longrightarrow>
            processSignalingMessage rtc m s = s) \<and>
         (\<forall>pc. peerConnection s = Some pc \<and> signalingState rtc pc = have_local_offer \<longrightarrow>
            (\<exists>rest. trace (processSignalingMessage rtc m s) =
                      trace s @ SetRemoteDescription (sig_data m) # rest))"
proof (intro conjI impI allI)
  assume "\<forall>pc. peerConnection s = Some pc \<longrightarrow> signalingState rtc pc \<noteq> have_local_offer"
  with assms show "processSignalingMessage rtc m s = s"
    by (cases "peerConnection s") (simp_all add: processSignalingMessage_def)
next
  fix pc
  assume h: "peerConnection s = Some pc \<and> signalingState rtc pc = have_local_offer"
  show "\<exists>rest. trace (processSignalingMessage rtc m s) =
                 trace s @ SetRemoteDescription (sig_data m) # rest"
  proof (cases "setRemoteDescription rtc (sig_data m) pc")
    case None
    with assms h show ?thesis by (simp add: processSignalingMessage_def emit_def)
  next
    case (Some pc')
    let ?s1 = "(emit [SetRemoteDescription (sig_data m)] s)
                 \<lparr>peerConnection := Some pc', isRemoteDescriptionSet := True\<rparr>"
    have "trace (processPendingCandidates rtc ?s1) =
            trace s @ SetRemoteDescription (sig_data m) # map AddIceCandidate (pendingCandidates s)"
      using processPending_flush [of ?s1 rtc] by (simp add: emit_def)
    with assms h Some show ?thesis by (simp add: processSignalingMessage_def)
  qed
qed

theorem answer_only_when_awaited_witness:
  "sig_type (signal answer ''sdp-answer'') = answer \<and>
   peerConnection callerSession = Some have_local_offer \<and>
   signalingState jsep have_local_offer = have_local_offer \<and>
   (\<exists>rest. trace (processSignalingMessage jsep (signal answer ''sdp-answer'') callerSession) =
            trace callerSession @ SetRemoteDescription (sig_data (signal answer ''sdp-answer'')) # rest) \<and>
   peerConnection answeredSession = Some stable \<and>
   signalingState jsep stable \<noteq> have_local_offer \<and>
   processSignalingMessage jsep (signal answer ''sdp-answer'') answeredSession = answeredSession"
proof -
  have t: "sig_type (signal answer ''sdp-answer'') = answer"
    by (simp add: signal_def)
  have c: "peerConnection callerSession = Some have_local_offer"
    and a: "peerConnection answeredSession = Some stable"
    by (simp_all add: callerSession_eq answeredSession_eq)
  have j: "signalingState jsep have_local_offer = have_local_offer"
    "signalingState jsep stable \<noteq> have_local_offer"
    by (simp_all add: jsep_def)
  from answer_only_when_awaited [OF t, of callerSession jsep] c j
  have applied: "\<exists>rest. trace (processSignalingMessage jsep (signal answer ''sdp-answer'') callerSession) =
      trace callerSession @ SetRemoteDescription (sig_data (signal answer ''sdp-answer'')) # rest"
    by blast
  from answer_only_when_awaited [OF t, of answeredSession jsep] a j
  have ignored: "processSignalingMessage jsep (signal answer ''sdp-answer'') answeredSession =
      answeredSession"
    by simp
  from t c a j applied ignored show ?thesis by blast
qed

section \<open>Accepting a call that is not ringing\<close>

text \<open>
  C3, as the code has it. When the read succeeds, \<open>acceptCall\<close> on an id with no
  document fails with \<open>CallNotFound\<close>, and on a document whose status is not
  \<open>ringing\<close> it fails with \<open>CallNotActive\<close>; in both cases the store is left as it
  was and the service state changes in one field only, \<open>currentCallId\<close>, which is
  set to the id before the document is read.
\<close>

theorem acceptCall_not_ringing:
  assumes "readable db"
  shows "(calls db cid = None \<longrightarrow>
            acceptCall rtc cid userId db s = (Failure CallNotFound, db, s\<lparr>currentCallId := cid\<rparr>)) \<and>
         (\<forall>d. calls db cid = Some d \<and> status d \<noteq> Some ringing \<longrightarrow>
            acceptCall rtc cid userId db s = (Failure CallNotActive, db, s\<lparr>currentCallId := cid\<rparr>))"
  using assms by (simp add: acceptCall_def)

theorem acceptCall_not_ringing_witness:
  "readable (store [(''call_1'', endedCall)] 5) \<and>
   calls (store [(''call_1'', endedCall)] 5) ''call_2'' = None \<and>
   acceptCall jsep ''call_2'' ''bob'' (store [(''call_1'', endedCall)] 5) calleeSession =
     (Failure CallNotFound, store [(''call_1'', endedCall)] 5, calleeSession\<lparr>currentCallId := ''call_2''\<rparr>) \<and>
   calls (store [(''call_1'', endedCall)] 5) ''call_1'' = Some endedCall \<and>
   status endedCall \<noteq> Some ringing \<and>
   acceptCall jsep ''call_1'' ''bob'' (store [(''call_1'', endedCall)] 5) calleeSession =
     (Failure CallNotActive, store [(''call_1'', endedCall)] 5, calleeSession\<lparr>currentCallId := ''call_1''\<rparr>)"
  using acceptCall_not_ringing [of "store [(''call_1'', endedCall)] 5" "''call_2''" jsep "''bob''" calleeSession]
    acceptCall_not_ringing [of "store [(''call_1'', endedCall)] 5" "''call_1''" jsep "''bob''" calleeSession]
  by (simp add: store_def endedCall_def)

text \<open>Without that exception the statement fails: accepting an ended call on a
  fresh service returns \<open>CallNotActive\<close> and leaves a service state that differs
  from the one before.\<close>

theorem acceptCall_changes_local_state:
  "calls (store [(''call_1'', endedCall)] 5) ''call_1'' = Some endedCall \<and>
   status endedCall \<noteq> Some ringing \<and>
   fst (acceptCall jsep ''call_1'' ''bob'' (store [(''call_1'', endedCall)] 5) newCallService) =
     Failure CallNotActive \<and>
   snd (snd (acceptCall jsep ''call_1'' ''bob'' (store [(''call_1'', endedCall)] 5) newCallService)) \<noteq>
     newCallService"
proof -
  have "currentCallId (snd (snd (acceptCall jsep ''call_1'' ''bob''
          (store [(''call_1'', endedCall)] 5) newCallService))) = ''call_1''"
    by (simp add: acceptCall_def store_def endedCall_def)
  moreover have "currentCallId (newCallService :: signaling_state CallService) = []"
    by (simp add: newCallService_def)
  ultimately have "snd (snd (acceptCall jsep ''call_1'' ''bob''
      (store [(''call_1'', endedCall)] 5) newCallService)) \<noteq> newCallService"
    by auto
  then show ?thesis by (simp add: acceptCall_def store_def endedCall_def)
qed

section \<open>The double-start guard\<close>

text \<open>
  The guard by itself: \<open>startConnection\<close> on a service that has a peer
  connection returns the state it was given, trace included: no media request,
  no second peer connection, no subscription and no message sent.
\<close>

lemma startConnection_guard:
  "peerConnection s \<noteq> None \<Longrightarrow>
   startConnection rtc cid userId otherUserId isCaller isVideoCall s = s"
  by (simp add: startConnection_def)

text \<open>\<open>startConnection\<close> is its two parts, one after the other.\<close>

lemma startConnection_split:
  "startConnection rtc cid userId other isCaller isVideoCall s =
     (case startConnection_begin isVideoCall s of
        None \<Rightarrow> s
      | Some s1 \<Rightarrow> startConnection_resume rtc cid userId other isCaller isVideoCall s1)"
  by (cases "getUserMedia rtc 0 isVideoCall"; cases "getUserMedia rtc 1 False")
     (simp_all add: startConnection_def startConnection_begin_def startConnection_resume_def
        acquireMedia_def emit_def)

text \<open>
  C8 on the code. On a fresh service, \<open>bob\<close>'s \<open>startConnection\<close> for \<open>call_1\<close> is
  called a second time while the first call awaits its media. The guard lets
  both calls pass, because \<open>peerConnection\<close> is assigned only after the media
  promise has settled: two peer connections are created and two subscriptions
  made for the one call, the second of each replacing the first in the fields of
  the service. A second call made after the first has finished is stopped by the
  guard.
\<close>

theorem overlapping_starts_open_two_sessions:
  "peerConnection (newCallService :: signaling_state CallService) = None \<and>
   trace (startConnection_overlapping jsep ''call_1'' ''bob'' (Some ''alice'') False False newCallService) =
     [GetUserMedia False, GetUserMedia False,
      NewPeerConnection, AddTrack audio_track, Subscribe ''call_1'' ''bob'',
      NewPeerConnection, AddTrack audio_track, Subscribe ''call_1'' ''bob''] \<and>
   startConnection jsep ''call_1'' ''bob'' (Some ''alice'') False False calleeSession = calleeSession \<and>
   trace calleeSession =
     [GetUserMedia False, NewPeerConnection, AddTrack audio_track, Subscribe ''call_1'' ''bob'']"
  by (simp add: startConnection_overlapping_def startConnection_begin_def startConnection_resume_def
        startConnection_def calleeSession_eq newCallService_def jsep_def emit_def)

section \<open>The \<open>handleSignalingMessage\<close> the class has\<close>

lemma public_handler_settles:
  "handleSignalingMessage_public frames m s = (Rejected RangeError, s)"
  by (induction frames) simp_all

lemma listener_changes_nothing:
  "foldl (\<lambda>t m. signalingListener frames m t) s ms = s"
  by (induction ms) (simp_all add: signalingListener_def public_handler_settles)

text \<open>
  C10, as the code has it. The member \<open>handleSignalingMessage\<close> that callers reach
  is the second declaration, whose body calls itself. Whatever the depth of the
  call stack, the call ends: its promise rejects with \<open>RangeError\<close>. It leaves the
  service state as it was, so it never enqueues the message and never reaches the
  drain loop of the first declaration; the listener, which does not await the
  promise, returns with nothing done.
\<close>

theorem public_handler_always_rejects:
  "handleSignalingMessage_public frames m s = (Rejected RangeError, s) \<and>
   signalingListener frames m s = s"
  by (simp add: signalingListener_def public_handler_settles)

text \<open>The call does return: on a stack of ten thousand frames the promise of a call
  on the callee's session has settled, as a rejection.\<close>

theorem public_handler_returns:
  "handleSignalingMessage_public 10000 (signal offer ''sdp-offer'') calleeSession =
     (Rejected RangeError, calleeSession)"
  by (rule public_handler_settles)

section \<open>Teardown, stage by stage\<close>

lemma emit_nothing: "emit [] s = s"
  by (simp add: emit_def)

lemma stopListening_fields:
  "\<not> signalingUnsubscribe (stopListening s)"
  "localStream (stopListening s) = localStream s"
  "peerConnection (stopListening s) = peerConnection s"
  "onRemoteStreamCallback (stopListening s) = onRemoteStreamCallback s"
  "onLocalStreamCallback (stopListening s) = onLocalStreamCallback s"
  by (simp_all add: stopListening_def emit_def)

lemma stopLocalStream_fields:
  "signalingUnsubscribe (stopLocalStream s) = signalingUnsubscribe s"
  "localStream (stopLocalStream s) = None"
  "peerConnection (stopLocalStream s) = peerConnection s"
  "onRemoteStreamCallback (stopLocalStream s) = onRemoteStreamCallback s"
  by (simp_all add: stopLocalStream_def emit_def split: option.splits)

lemma closePeerConnection_fields:
  "signalingUnsubscribe (closePeerConnection s) = signalingUnsubscribe s"
  "localStream (closePeerConnection s) = localStream s"
  "peerConnection (closePeerConnection s) = None"
  "onRemoteStreamCallback (closePeerConnection s) = onRemoteStreamCallback s"
  by (simp_all add: closePeerConnection_def emit_def split: option.splits)

lemma clearNegotiation_fields:
  "signalingUnsubscribe (clearNegotiation s) = signalingUnsubscribe s"
  "localStream (clearNegotiation s) = localStream s"
  "peerConnection (clearNegotiation s) = peerConnection s"
  "onRemoteStreamCallback (clearNegotiation s) = onRemoteStreamCallback s"
  "remoteStream (clearNegotiation s) = None"
  "\<not> isRemoteDescriptionSet (clearNegotiation s)"
  "pendingCandidates (clearNegotiation s) = []"
  "signalingQueue (clearNegotiation s) = []"
  by (simp_all add: clearNegotiation_def)

lemma notify_fields:
  "signalingUnsubscribe (notifyRemoteStreamGone s) = signalingUnsubscribe s"
  "localStream (notifyRemoteStreamGone s) = localStream s"
  "peerConnection (notifyRemoteStreamGone s) = peerConnection s"
  "onRemoteStreamCallback (notifyRemoteStreamGone s) = onRemoteStreamCallback s"
  "remoteStream (notifyRemoteStreamGone s) = remoteStream s"
  "isRemoteDescriptionSet (notifyRemoteStreamGone s) = isRemoteDescriptionSet s"
  "pendingCandidates (notifyRemoteStreamGone s) = pendingCandidates s"
  "signalingQueue (notifyRemoteStreamGone s) = signalingQueue s"
  by (simp_all add: notifyRemoteStreamGone_def emit_def)

lemma close_tornDown: "tornDown (closeWebRTCConnection c s)"
  by (simp add: tornDown_def closeWebRTCConnection_def notify_fields clearNegotiation_fields
        closePeerConnection_fields stopLocalStream_fields stopListening_fields)

lemma close_callback:
  "onRemoteStreamCallback (closeWebRTCConnection c s) = onRemoteStreamCallback s"
  by (simp add: closeWebRTCConnection_def notify_fields clearNegotiation_fields
        closePeerConnection_fields stopLocalStream_fields stopListening_fields)

lemma clearNegotiation_tornDown: "tornDown s \<Longrightarrow> clearNegotiation s = s"
  by (cases s) (simp add: tornDown_def clearNegotiation_def)

lemma close_of_tornDown:
  assumes "tornDown s"
  shows "closeWebRTCConnection c s =
         emit (if onRemoteStreamCallback s then [OnRemoteStream None] else []) s"
proof -
  from assms have "stopListening s = s" by (simp add: tornDown_def stopListening_def)
  moreover from assms have "stopLocalStream s = s" by (simp add: tornDown_def stopLocalStream_def)
  moreover from assms have "closePeerConnection s = s"
    by (simp add: tornDown_def closePeerConnection_def)
  moreover note clearNegotiation_tornDown [OF assms]
  ultimately have "closeWebRTCConnection c s = notifyRemoteStreamGone s"
    by (simp add: closeWebRTCConnection_def)
  then show ?thesis by (simp add: notifyRemoteStreamGone_def emit_nothing)
qed

lemma close_twice:
  "closeWebRTCConnection c2 (closeWebRTCConnection c1 s) =
   emit (if onRemoteStreamCallback s then [OnRemoteStream None] else []) (closeWebRTCConnection c1 s)"
  using close_of_tornDown [OF close_tornDown, of c2 c1 s] by (simp add: close_callback)

lemma close_fresh: "closeWebRTCConnection c newCallService = newCallService"
proof -
  have "tornDown (newCallService :: 'a CallService)"
    by (simp add: tornDown_def newCallService_def)
  then have "closeWebRTCConnection c (newCallService :: 'a CallService) =
      emit (if onRemoteStreamCallback (newCallService :: 'a CallService) then [OnRemoteStream None] else []) newCallService"
    by (rule close_of_tornDown)
  then show ?thesis by (simp add: newCallService_def emit_def)
qed

lemma stage_traces:
  "\<exists>rest. trace (stopListening s) = trace s @ rest \<and> (\<forall>b. GetUserMedia b \<notin> set rest)"
  "\<exists>rest. trace (stopLocalStream s) = trace s @ rest \<and> (\<forall>b. GetUserMedia b \<notin> set rest)"
  "\<exists>rest. trace (closePeerConnection s) = trace s @ rest \<and> (\<forall>b. GetUserMedia b \<notin> set rest)"
  "trace (clearNegotiation s) = trace s"
  "\<exists>rest. trace (notifyRemoteStreamGone s) = trace s @ rest \<and> (\<forall>b. GetUserMedia b \<notin> set rest)"
  by (auto simp add: stopListening_def stopLocalStream_def closePeerConnection_def
        clearNegotiation_def notifyRemoteStreamGone_def emit_def split: option.splits)

lemma close_trace:
  "\<exists>rest. trace (closeWebRTCConnection c s) = trace s @ rest \<and> (\<forall>b. GetUserMedia b \<notin> set rest)"
proof -
  let ?a = "stopListening s"
  let ?b = "stopLocalStream ?a"
  let ?c = "closePeerConnection ?b"
  let ?d = "clearNegotiation ?c"
  obtain r1 where r1: "trace ?a = trace s @ r1" "\<forall>b. GetUserMedia b \<notin> set r1"
    using stage_traces(1) [of s] by blast
  obtain r2 where r2: "trace ?b = trace ?a @ r2" "\<forall>b. GetUserMedia b \<notin> set r2"
    using stage_traces(2) [of ?a] by blast
  obtain r3 where r3: "trace ?c = trace ?b @ r3" "\<forall>b. GetUserMedia b \<notin> set r3"
    using stage_traces(3) [of ?b] by blast
  obtain r4 where r4: "trace (notifyRemoteStreamGone ?d) = trace ?d @ r4" "\<forall>b. GetUserMedia b \<notin> set r4"
    using stage_traces(5) [of ?d] by blast
  have "trace (closeWebRTCConnection c s) = trace s @ (r1 @ r2 @ r3 @ r4)"
    using r1 r2 r3 r4 by (simp add: closeWebRTCConnection_def stage_traces(4))
  moreover have "\<forall>b. GetUserMedia b \<notin> set (r1 @ r2 @ r3 @ r4)"
    using r1 r2 r3 r4 by simp
  ultimately show ?thesis by blast
qed

lemma sendOffer_trace:
  "\<exists>rest. trace (sendOffer rtc cid u other v s) = trace s @ rest \<and> (\<forall>b. GetUserMedia b \<notin> set rest)"
proof -
  have via: "\<exists>rest. trace (cleanup (emit es s)) = trace s @ rest \<and> (\<forall>b. GetUserMedia b \<notin> set rest)"
    if "\<forall>b. GetUserMedia b \<notin> set es" for es
  proof -
    obtain r where "trace (cleanup (emit es s)) = trace (emit es s) @ r" "\<forall>b. GetUserMedia b \<notin> set r"
      using close_trace [of "currentCallId (emit es s)" "emit es s"] by (auto simp add: cleanup_def)
    then have "trace (cleanup (emit es s)) = trace s @ (es @ r)" "\<forall>b. GetUserMedia b \<notin> set (es @ r)"
      using that by (simp_all add: emit_def)
    then show ?thesis by blast
  qed
  show ?thesis
  proof (cases "peerConnection s")
    case None
    then show ?thesis using via [of "[]"] by (simp add: sendOffer_def emit_nothing)
  next
    case (Some pc)
    show ?thesis
    proof (cases "createOffer rtc v pc")
      case None
      then show ?thesis using Some via [of "[CreateOffer v]"] by (simp add: sendOffer_def)
    next
      case d: (Some d)
      show ?thesis
      proof (cases "setLocalDescription rtc d pc")
        case None
        then show ?thesis using Some d via [of "[CreateOffer v, SetLocalDescription d]"]
          by (simp add: sendOffer_def)
      next
        case (Some pc')
        then show ?thesis using \<open>peerConnection s = Some pc\<close> d
          by (simp add: sendOffer_def emit_def)
      qed
    qed
  qed
qed

lemma merge_twice:
  assumes "\<And>d. patch (patch d) = patch d"
  shows "mergeDoc cid patch (mergeDoc cid patch db) = mergeDoc cid patch db"
  using assms by (simp add: mergeDoc_def)

section \<open>Ending and closing twice\<close>

text \<open>
  C5, as the code has it. A second \<open>closeWebRTCConnection\<close> leaves the service
  state as the first left it, torn down, and unsubscribes, stops, releases and
  closes nothing: its one effect is to tell a registered observer of the remote
  stream \<open>null\<close> again; on a service that was never started it does nothing at
  all. When the write succeeds, \<open>endCall\<close> succeeds, merge-writes \<open>ended\<close>, the
  server time and the duration (0 when none is given) over whatever the record
  held, leaves the other records alone and runs \<open>closeWebRTCConnection\<close>. A
  second \<open>endCall\<close> with the same duration, at whatever server time it runs,
  succeeds again, leaves the service state as the first left it up to that
  notification, and writes the same record but for \<open>endedAt\<close>, which becomes the
  time of the second call.
\<close>

theorem endCall_and_close_repeated:
  "closeWebRTCConnection c2 (closeWebRTCConnection c1 s) =
     emit (if onRemoteStreamCallback s then [OnRemoteStream None] else [])
       (closeWebRTCConnection c1 s) \<and>
   tornDown (closeWebRTCConnection c1 s) \<and>
   closeWebRTCConnection c1 (newCallService :: 'pc CallService) = newCallService \<and>
   (writable db \<longrightarrow>
      (\<exists>db' d.
         endCall cid dur db (s :: 'pc CallService) = (Success, db', closeWebRTCConnection cid s) \<and>
         d = (case calls db cid of None \<Rightarrow> emptyDoc | Some d0 \<Rightarrow> d0)
               \<lparr>status := Some ended, endedAt := Some (clock db),
                 duration := Some (case dur of None \<Rightarrow> 0 | Some n \<Rightarrow> n)\<rparr> \<and>
         calls db' = (calls db)(cid \<mapsto> d) \<and> clock db' = clock db \<and> writable db' \<and>
         (\<forall>t. \<exists>db''.
            endCall cid dur (db'\<lparr>clock := t\<rparr>) (closeWebRTCConnection cid s) =
              (Success, db'',
               emit (if onRemoteStreamCallback s then [OnRemoteStream None] else [])
                 (closeWebRTCConnection cid s)) \<and>
            calls db'' = (calls db')(cid \<mapsto> d\<lparr>endedAt := Some t\<rparr>) \<and> clock db'' = t)))"
proof (intro conjI impI)
  show "closeWebRTCConnection c2 (closeWebRTCConnection c1 s) =
     emit (if onRemoteStreamCallback s then [OnRemoteStream None] else [])
       (closeWebRTCConnection c1 s)"
    by (rule close_twice)
  show "tornDown (closeWebRTCConnection c1 s)"
    by (rule close_tornDown)
  show "closeWebRTCConnection c1 (newCallService :: 'pc CallService) = newCallService"
    by (rule close_fresh)
next
  assume w: "writable db"
  let ?d = "(case calls db cid of None \<Rightarrow> emptyDoc | Some d0 \<Rightarrow> d0)
               \<lparr>status := Some ended, endedAt := Some (clock db),
                 duration := Some (case dur of None \<Rightarrow> 0 | Some n \<Rightarrow> n)\<rparr>"
  let ?db = "mergeDoc cid (\<lambda>d. d\<lparr>status := Some ended, endedAt := Some (clock db),
                     duration := Some (case dur of None \<Rightarrow> 0 | Some n \<Rightarrow> n)\<rparr>) db"
  let ?s = "closeWebRTCConnection cid s"
  let ?again = "emit (if onRemoteStreamCallback s then [OnRemoteStream None] else []) ?s"
  have first: "endCall cid dur db s = (Success, ?db, ?s)"
    using w by (simp add: endCall_def)
  have store: "calls ?db = (calls db)(cid \<mapsto> ?d)" "clock ?db = clock db" "writable ?db"
    using w by (simp_all add: mergeDoc_def)
  have second: "\<exists>db''. endCall cid dur (?db\<lparr>clock := t\<rparr>) ?s = (Success, db'', ?again) \<and>
      calls db'' = (calls ?db)(cid \<mapsto> ?d\<lparr>endedAt := Some t\<rparr>) \<and> clock db'' = t" for t
  proof -
    have reorder: "r\<lparr>status := a, endedAt := b, duration := c\<rparr> =
        r\<lparr>status := a, duration := c, endedAt := b\<rparr>" for r :: CallOffer and a b c
      by (cases r) simp
    show ?thesis
      using w by (simp add: endCall_def close_twice mergeDoc_def reorder)
  qed
  show "\<exists>db' d.
         endCall cid dur db s = (Success, db', closeWebRTCConnection cid s) \<and>
         d = (case calls db cid of None \<Rightarrow> emptyDoc | Some d0 \<Rightarrow> d0)
               \<lparr>status := Some ended, endedAt := Some (clock db),
                 duration := Some (case dur of None \<Rightarrow> 0 | Some n \<Rightarrow> n)\<rparr> \<and>
         calls db' = (calls db)(cid \<mapsto> d) \<and> clock db' = clock db \<and> writable db' \<and>
         (\<forall>t. \<exists>db''.
            endCall cid dur (db'\<lparr>clock := t\<rparr>) (closeWebRTCConnection cid s) =
              (Success, db'',
               emit (if onRemoteStreamCallback s then [OnRemoteStream None] else [])
                 (closeWebRTCConnection cid s)) \<and>
            calls db'' = (calls db')(cid \<mapsto> d\<lparr>endedAt := Some t\<rparr>) \<and> clock db'' = t)"
    using first store second by blast
qed

theorem endCall_and_close_repeated_witness:
  "writable (store [(''call_1'', rejectedCall)] 9) \<and>
   closeWebRTCConnection ''call_1'' (closeWebRTCConnection ''call_1'' callerSession) =
     closeWebRTCConnection ''call_1'' callerSession \<and>
   tornDown (closeWebRTCConnection ''call_1'' callerSession) \<and>
   (\<exists>db' db''.
      endCall ''call_1'' (Some 30) (store [(''call_1'', rejectedCall)] 9) callerSession =
        (Success, db', closeWebRTCConnection ''call_1'' callerSession) \<and>
      calls db' ''call_1'' =
        Some (rejectedCall\<lparr>status := Some ended, endedAt := Some 9, duration := Some 30\<rparr>) \<and>
      endCall ''call_1'' (Some 30) (db'\<lparr>clock := 12\<rparr>) (closeWebRTCConnection ''call_1'' callerSession) =
        (Success, db'', closeWebRTCConnection ''call_1'' callerSession) \<and>
      calls db'' ''call_1'' =
        Some (rejectedCall\<lparr>status := Some ended, endedAt := Some 12, duration := Some 30\<rparr>))"
proof -
  let ?db = "store [(''call_1'', rejectedCall)] 9"
  have w: "writable ?db" and c: "calls ?db ''call_1'' = Some rejectedCall" and k: "clock ?db = 9"
    by (simp_all add: store_def)
  have cb: "\<not> onRemoteStreamCallback callerSession"
    by (simp add: callerSession_eq)
  note th = endCall_and_close_repeated [of "''call_1''" "''call_1''" callerSession ?db "''call_1''" "Some 30"]
  from th cb have twice: "closeWebRTCConnection ''call_1'' (closeWebRTCConnection ''call_1'' callerSession) =
     closeWebRTCConnection ''call_1'' callerSession"
    and torn: "tornDown (closeWebRTCConnection ''call_1'' callerSession)"
    by (simp_all add: emit_nothing)
  from th w obtain db' d where
    first: "endCall ''call_1'' (Some 30) ?db callerSession =
        (Success, db', closeWebRTCConnection ''call_1'' callerSession)"
    and d: "d = (case calls ?db ''call_1'' of None \<Rightarrow> emptyDoc | Some d0 \<Rightarrow> d0)
               \<lparr>status := Some ended, endedAt := Some (clock ?db), duration := Some (case Some 30 of None \<Rightarrow> 0 | Some n \<Rightarrow> n)\<rparr>"
    and docs: "calls db' = (calls ?db)(''call_1'' \<mapsto> d)"
    and again: "\<forall>t. \<exists>db''.
            endCall ''call_1'' (Some 30) (db'\<lparr>clock := t\<rparr>) (closeWebRTCConnection ''call_1'' callerSession) =
              (Success, db'',
               emit (if onRemoteStreamCallback callerSession then [OnRemoteStream None] else [])
                 (closeWebRTCConnection ''call_1'' callerSession)) \<and>
            calls db'' = (calls db')(''call_1'' \<mapsto> d\<lparr>endedAt := Some t\<rparr>) \<and> clock db'' = t"
    by blast
  from again obtain db'' where
    second: "endCall ''call_1'' (Some 30) (db'\<lparr>clock := 12\<rparr>) (closeWebRTCConnection ''call_1'' callerSession) =
              (Success, db'',
               emit (if onRemoteStreamCallback callerSession then [OnRemoteStream None] else [])
                 (closeWebRTCConnection ''call_1'' callerSession))"
    and docs2: "calls db'' = (calls db')(''call_1'' \<mapsto> d\<lparr>endedAt := Some 12\<rparr>)"
    by blast
  from d c k have d': "d = rejectedCall\<lparr>status := Some ended, endedAt := Some 9, duration := Some 30\<rparr>"
    by simp
  from docs d' have r1: "calls db' ''call_1'' =
        Some (rejectedCall\<lparr>status := Some ended, endedAt := Some 9, duration := Some 30\<rparr>)"
    by simp
  from docs2 d' have r2: "calls db'' ''call_1'' =
        Some (rejectedCall\<lparr>status := Some ended, endedAt := Some 12, duration := Some 30\<rparr>)"
    by simp
  from second cb have second': "endCall ''call_1'' (Some 30) (db'\<lparr>clock := 12\<rparr>)
      (closeWebRTCConnection ''call_1'' callerSession) =
        (Success, db'', closeWebRTCConnection ''call_1'' callerSession)"
    by (simp add: emit_nothing)
  from w twice torn first r1 second' r2 show ?thesis by blast
qed

text \<open>The record of a call that is already terminal is not left alone: ending a
  rejected call overwrites its status, its end time and its duration.\<close>

theorem endCall_rewrites_terminal_record:
  "calls (store [(''call_1'', rejectedCall)] 9) ''call_1'' = Some rejectedCall \<and>
   status rejectedCall = Some rejected \<and>
   fst (endCall ''call_1'' None (store [(''call_1'', rejectedCall)] 9) newCallService) = Success \<and>
   calls (fst (snd (endCall ''call_1'' None (store [(''call_1'', rejectedCall)] 9) newCallService)))
     ''call_1'' =
     Some (rejectedCall\<lparr>status := Some ended, endedAt := Some 9, duration := Some 0\<rparr>) \<and>
   calls (fst (snd (endCall ''call_1'' None (store [(''call_1'', rejectedCall)] 9) newCallService)))
     ''call_1'' \<noteq>
     calls (store [(''call_1'', rejectedCall)] 9) ''call_1''"
  by (simp add: endCall_def mergeDoc_def store_def rejectedCall_def ringingCall_def emptyDoc_def)

section \<open>Media acquisition failure\<close>

text \<open>
  C7, as the code has it. When the first media request of \<open>startConnection\<close> is
  refused, exactly one more request is made, for audio only. When that one is
  refused too, \<open>startConnection\<close> does nothing but the teardown of
  \<open>closeWebRTCConnection\<close> and returns normally, leaving no subscription, stream
  or peer connection; it has no result to report a failure with, and \<open>acceptCall\<close>
  on a ringing call returns success whatever the media requests did.
\<close>

theorem media_failure_swallowed:
  assumes "peerConnection s = None" and "getUserMedia rtc 0 isVideoCall = None"
  shows "(\<exists>rest. trace (startConnection rtc cid userId other isCaller isVideoCall s) =
                   trace s @ [GetUserMedia isVideoCall, GetUserMedia False] @ rest \<and>
                 (\<forall>b. GetUserMedia b \<notin> set rest)) \<and>
         (getUserMedia rtc 1 False = None \<longrightarrow>
            startConnection rtc cid userId other isCaller isVideoCall s =
              closeWebRTCConnection (currentCallId s)
                (emit [GetUserMedia isVideoCall, GetUserMedia False] s) \<and>
            tornDown (startConnection rtc cid userId other isCaller isVideoCall s)) \<and>
         (\<forall>db d. readable db \<and> writable db \<and> calls db cid = Some d \<and> status d = Some ringing \<longrightarrow>
            fst (acceptCall rtc cid userId db s) = Success)"
proof (intro conjI impI allI)
  let ?req = "[GetUserMedia isVideoCall, GetUserMedia False]"
  show "\<exists>rest. trace (startConnection rtc cid userId other isCaller isVideoCall s) =
                   trace s @ ?req @ rest \<and> (\<forall>b. GetUserMedia b \<notin> set rest)"
  proof (cases "getUserMedia rtc 1 False")
    case None
    obtain r where "trace (cleanup (emit ?req s)) = trace (emit ?req s) @ r"
      "\<forall>b. GetUserMedia b \<notin> set r"
      using close_trace [of "currentCallId (emit ?req s)" "emit ?req s"] by (auto simp add: cleanup_def)
    then show ?thesis using assms None
      by (simp add: startConnection_def acquireMedia_def emit_def)
  next
    case (Some stream)
    let ?s1 = "(emit (?req @ (if onLocalStreamCallback s then [OnLocalStream (Some stream)] else []) @
                      [NewPeerConnection] @ map AddTrack stream @ [Subscribe cid userId]) s)
               \<lparr>localStream := Some stream,
                 peerConnection := Some (fold (addTrack rtc) stream (newPeerConnection rtc)),
                 signalingUnsubscribe := True\<rparr>"
    have eq: "startConnection rtc cid userId other isCaller isVideoCall s =
        (if isCaller then sendOffer rtc cid userId other isVideoCall ?s1 else ?s1)"
      using assms Some by (simp add: startConnection_def acquireMedia_def)
    have t1: "trace ?s1 = trace s @ ?req @
        ((if onLocalStreamCallback s then [OnLocalStream (Some stream)] else []) @
          [NewPeerConnection] @ map AddTrack stream @ [Subscribe cid userId])"
      by (simp add: emit_def)
    have n1: "\<forall>b. GetUserMedia b \<notin> set ((if onLocalStreamCallback s then [OnLocalStream (Some stream)] else []) @
          [NewPeerConnection] @ map AddTrack stream @ [Subscribe cid userId])"
      by auto
    show ?thesis
    proof (cases isCaller)
      case False
      with eq t1 n1 show ?thesis by metis
    next
      case True
      obtain r where r: "trace (sendOffer rtc cid userId other isVideoCall ?s1) = trace ?s1 @ r"
        "\<forall>b. GetUserMedia b \<notin> set r"
        using sendOffer_trace [of rtc cid userId other isVideoCall ?s1] by blast
      let ?mid = "(if onLocalStreamCallback s then [OnLocalStream (Some stream)] else []) @
          [NewPeerConnection] @ map AddTrack stream @ [Subscribe cid userId]"
      have "trace (startConnection rtc cid userId other isCaller isVideoCall s) =
          trace s @ ?req @ (?mid @ r)"
        using True eq r(1) t1 by simp
      moreover have "\<forall>b. GetUserMedia b \<notin> set (?mid @ r)"
        using n1 r(2) by simp
      ultimately show ?thesis by blast
    qed
  qed
next
  assume "getUserMedia rtc 1 False = None"
  then show eq: "startConnection rtc cid userId other isCaller isVideoCall s =
              closeWebRTCConnection (currentCallId s)
                (emit [GetUserMedia isVideoCall, GetUserMedia False] s)"
    using assms by (simp add: startConnection_def acquireMedia_def cleanup_def emit_def)
  show "tornDown (startConnection rtc cid userId other isCaller isVideoCall s)"
    unfolding eq by (rule close_tornDown)
next
  fix db :: Firestore and d :: CallOffer
  assume "readable db \<and> writable db \<and> calls db cid = Some d \<and> status d = Some ringing"
  then show "fst (acceptCall rtc cid userId db s) = Success"
    by (simp add: acceptCall_def)
qed

theorem media_failure_swallowed_witness:
  "peerConnection (newCallService :: signaling_state CallService) = None \<and>
   getUserMedia noMedia 0 True = None \<and>
   getUserMedia noMedia 1 False = None \<and>
   (\<exists>rest. trace (startConnection noMedia ''call_1'' ''bob'' (Some ''alice'') False True newCallService) =
              trace (newCallService :: signaling_state CallService) @
                [GetUserMedia True, GetUserMedia False] @ rest \<and>
            (\<forall>b. GetUserMedia b \<notin> set rest)) \<and>
   startConnection noMedia ''call_1'' ''bob'' (Some ''alice'') False True newCallService =
     closeWebRTCConnection (currentCallId (newCallService :: signaling_state CallService))
       (emit [GetUserMedia True, GetUserMedia False] newCallService) \<and>
   tornDown (startConnection noMedia ''call_1'' ''bob'' (Some ''alice'') False True newCallService) \<and>
   readable ringingStore \<and> writable ringingStore \<and>
   calls ringingStore ''call_1'' = Some (ringingCall ''call_1'' ''alice'' ''bob'') \<and>
   status (ringingCall ''call_1'' ''alice'' ''bob'') = Some ringing \<and>
   fst (acceptCall noMedia ''call_1'' ''bob'' ringingStore newCallService) = Success"
proof -
  have h1: "peerConnection (newCallService :: signaling_state CallService) = None"
    by (simp add: newCallService_def)
  have h2: "getUserMedia noMedia 0 True = None" and h3: "getUserMedia noMedia 1 False = None"
    by (simp_all add: noMedia_def)
  have h4: "readable ringingStore" "writable ringingStore"
    and h5: "calls ringingStore ''call_1'' = Some (ringingCall ''call_1'' ''alice'' ''bob'')"
    and h6: "status (ringingCall ''call_1'' ''alice'' ''bob'') = Some ringing"
    by (simp_all add: ringingStore_def store_def ringingCall_def)
  note th = media_failure_swallowed [OF h1 h2, of "''call_1''" "''bob''" "Some ''alice''" False]
  from th h3 h4 h5 h6 show ?thesis using h1 h2 by blast
qed

text \<open>No failure reaches the caller: with every media request refused, accepting a
  ringing call returns success and leaves no peer connection.\<close>

theorem media_failure_reported_as_success:
  "getUserMedia noMedia 0 False = None \<and>
   getUserMedia noMedia 1 False = None \<and>
   calls ringingStore ''call_1'' = Some (ringingCall ''call_1'' ''alice'' ''bob'') \<and>
   fst (acceptCall noMedia ''call_1'' ''bob'' ringingStore newCallService) = Success \<and>
   peerConnection (snd (snd (acceptCall noMedia ''call_1'' ''bob'' ringingStore newCallService))) = None"
proof -
  have "tornDown (startConnection noMedia ''call_1'' ''bob'' (Some ''alice'') False False
          (newCallService\<lparr>currentCallId := ''call_1''\<rparr>))"
    by (simp add: startConnection_def acquireMedia_def noMedia_def jsep_def newCallService_def
          cleanup_def close_tornDown)
  then have "peerConnection (startConnection noMedia ''call_1'' ''bob'' (Some ''alice'') False False
          (newCallService\<lparr>currentCallId := ''call_1''\<rparr>)) = None"
    by (simp add: tornDown_def)
  then show ?thesis
    by (simp add: acceptCall_def ringingStore_def store_def ringingCall_def emptyDoc_def noMedia_def jsep_def)
qed

section \<open>An incoming call while another call is active\<close>

text \<open>The guard works on the values the listener has captured: when those show a
  ringing or answered call of another id, the incoming call is rejected in the
  store and the provider is left as it is.\<close>

lemma incoming_call_rejected_when_seen_busy:
  assumes "seen_manualCall p = Some mc" and "status mc = Some ringing \<or> status mc = Some answered"
    and "callId call = Some cid" and "callId mc \<noteq> Some cid" and "writable db"
  shows "snd (onIncomingCall call db p) = p"
    and "\<exists>d. calls (fst (onIncomingCall call db p)) cid = Some d \<and> status d = Some rejected"
  using assms by (auto simp add: onIncomingCall_def rejectCall_def mergeDoc_def)

text \<open>
  C9 on the code. \<open>bob\<close> signs in, which runs the effect and subscribes the
  listener while \<open>manualCall\<close> is \<open>null\<close>; he then places \<open>call_A\<close>, which is
  ringing. When \<open>call_B\<close> comes in, the listener still sees the \<open>manualCall\<close> it
  captured: it writes no rejection, plays the ringtone and replaces \<open>call_A\<close> by
  \<open>call_B\<close> as the provider's call.
\<close>

theorem incoming_call_surfaced_while_busy:
  "manualCall busyProvider = Some placedCall \<and>
   status placedCall = Some ringing \<and>
   callId placedCall \<noteq> callId incomingCall \<and>
   onIncomingCall incomingCall busyStore busyProvider =
     (busyStore, busyProvider\<lparr>ringtone := True, manualCall := Some incomingCall\<rparr>) \<and>
   calls (fst (onIncomingCall incomingCall busyStore busyProvider)) ''call_B'' = Some incomingCall \<and>
   status incomingCall = Some ringing"
  by (simp add: onIncomingCall_def busyProvider_def setManualCall_def subscribeEffect_def
        newCallProvider_def placedCall_def incomingCall_def busyStore_def store_def ringingCall_def
        emptyDoc_def)

section \<open>What a dispatch leaves alone\<close>

lemma requeue_reads:
  "peerConnection (requeue q b s) = peerConnection s"
  "isRemoteDescriptionSet (requeue q b s) = isRemoteDescriptionSet s"
  "pendingCandidates (requeue q b s) = pendingCandidates s"
  "signalingQueue (requeue q b s) = q"
  "isProcessingSignal (requeue q b s) = b"
  by (simp_all add: requeue_def)

lemma requeue_out:
  "emit es (requeue q b s) = requeue q b (emit es s)"
  "(requeue q b s)\<lparr>peerConnection := x\<rparr> = requeue q b (s\<lparr>peerConnection := x\<rparr>)"
  "(requeue q b s)\<lparr>isRemoteDescriptionSet := y\<rparr> = requeue q b (s\<lparr>isRemoteDescriptionSet := y\<rparr>)"
  "(requeue q b s)\<lparr>pendingCandidates := z\<rparr> = requeue q b (s\<lparr>pendingCandidates := z\<rparr>)"
  by (simp_all add: requeue_def emit_def)

lemma requeue_requeue: "requeue q b (requeue q' b' s) = requeue q b s"
  by (simp add: requeue_def)

lemma requeue_updates:
  "requeue q b (s\<lparr>signalingQueue := q'\<rparr>) = requeue q b s"
  "requeue q b (s\<lparr>isProcessingSignal := b'\<rparr>) = requeue q b s"
  "s\<lparr>isProcessingSignal := b, signalingQueue := q\<rparr> = requeue q b s"
  by (simp_all add: requeue_def)

lemma requeue_same:
  "signalingQueue s = q \<Longrightarrow> isProcessingSignal s = b \<Longrightarrow> requeue q b s = s"
  by (cases s) (simp add: requeue_def)

lemma addPending_requeue:
  "addPendingCandidates rtc cs (requeue q b s) = requeue q b (addPendingCandidates rtc cs s)"
proof (induction cs arbitrary: s)
  case Nil
  show ?case by simp
next
  case (Cons c cs)
  show ?case
    by (cases "peerConnection s"; cases "addIceCandidate rtc c (the (peerConnection s))")
       (simp_all add: requeue_reads requeue_out Cons.IH)
qed

lemma pending_requeue:
  "processPendingCandidates rtc (requeue q b s) = requeue q b (processPendingCandidates rtc s)"
  by (simp add: processPendingCandidates_def requeue_reads requeue_out addPending_requeue)

lemma answerOffer_requeue:
  "answerOffer rtc m (requeue q b s) = requeue q b (answerOffer rtc m s)"
  by (simp add: answerOffer_def requeue_reads requeue_out split: option.splits)

lemma process_requeue:
  "processSignalingMessage rtc m (requeue q b s) = requeue q b (processSignalingMessage rtc m s)"
  by (simp add: processSignalingMessage_def requeue_reads requeue_out pending_requeue answerOffer_requeue
        split: option.splits signaling_type.splits)

lemma process_keeps_queue:
  "signalingQueue (processSignalingMessage rtc m s) = signalingQueue s"
  "isProcessingSignal (processSignalingMessage rtc m s) = isProcessingSignal s"
proof -
  have "processSignalingMessage rtc m s =
        requeue (signalingQueue s) (isProcessingSignal s) (processSignalingMessage rtc m s)"
    using process_requeue [of rtc m "signalingQueue s" "isProcessingSignal s" s]
    by (simp add: requeue_same)
  then show "signalingQueue (processSignalingMessage rtc m s) = signalingQueue s"
    "isProcessingSignal (processSignalingMessage rtc m s) = isProcessingSignal s"
    by (metis requeue_reads(4), metis requeue_reads(5))
qed

lemma drainNext_stays:
  "signalingQueue (service \<sigma>) = [] \<or> isProcessingSignal (service \<sigma>) \<Longrightarrow> drainNext \<sigma> = \<sigma>"
  by (auto simp add: drainNext_def split: list.splits)

lemma drainNext_takes:
  "signalingQueue (service \<sigma>) = h # t \<Longrightarrow> \<not> isProcessingSignal (service \<sigma>) \<Longrightarrow>
   drainNext \<sigma> = \<sigma>\<lparr>service := requeue t True (service \<sigma>), dispatching := dispatching \<sigma> @ [h]\<rparr>"
  by (simp add: drainNext_def requeue_updates)

section \<open>One event of a session\<close>

lemma deliver_step:
  assumes "steady \<sigma>" and "step rtc (Deliver m) \<sigma> = Some \<sigma>'"
  shows "steady \<sigma>' \<and> backlog \<sigma>' = backlog \<sigma> @ [m] \<and>
         requeue [] False (service \<sigma>') = requeue [] False (service \<sigma>)"
proof -
  let ?q = "signalingQueue (service \<sigma>)"
  let ?\<sigma>1 = "\<sigma>\<lparr>service := (service \<sigma>)\<lparr>signalingQueue := ?q @ [m]\<rparr>\<rparr>"
  show ?thesis
  proof (cases "isProcessingSignal (service \<sigma>)")
    case True
    with assms(2) have "\<sigma>' = ?\<sigma>1" by (simp add: Let_def)
    with assms(1) True show ?thesis
      by (simp add: steady_def backlog_def requeue_updates)
  next
    case False
    obtain h t where ht: "?q @ [m] = h # t" by (cases "?q @ [m]") auto
    from False assms(2) have "\<sigma>' = drainNext ?\<sigma>1" by (simp add: Let_def)
    also have "\<dots> = ?\<sigma>1\<lparr>service := requeue t True (service ?\<sigma>1), dispatching := dispatching ?\<sigma>1 @ [h]\<rparr>"
      using False ht by (intro drainNext_takes) simp_all
    finally have eq: "\<sigma>' = ?\<sigma>1\<lparr>service := requeue t True (service ?\<sigma>1),
        dispatching := dispatching ?\<sigma>1 @ [h]\<rparr>" .
    from assms(1) False have none: "dispatching \<sigma> = []" by (simp add: steady_def)
    show ?thesis
      unfolding eq using none ht
      by (simp add: steady_def backlog_def requeue_reads requeue_requeue requeue_updates)
  qed
qed

lemma settle_step:
  assumes "steady \<sigma>" and "step rtc (Settle i) \<sigma> = Some \<sigma>'"
  shows "steady \<sigma>' \<and> dispatching \<sigma>' = [] \<and>
         (\<exists>d. backlog \<sigma> = d # backlog \<sigma>' \<and>
              requeue [] False (service \<sigma>') =
                processSignalingMessage rtc d (requeue [] False (service \<sigma>)))"
proof -
  from assms(2) have i: "i < length (dispatching \<sigma>)" by (simp split: if_splits)
  with assms(1) obtain d where d: "dispatching \<sigma> = [d]" and i0: "i = 0"
    by (cases "dispatching \<sigma>") (auto simp add: steady_def)
  let ?s1 = "(processSignalingMessage rtc d (service \<sigma>))\<lparr>isProcessingSignal := False\<rparr>"
  let ?\<sigma>1 = "\<sigma>\<lparr>service := ?s1, dispatching := []\<rparr>"
  have q: "signalingQueue ?s1 = signalingQueue (service \<sigma>)"
    by (simp add: process_keeps_queue)
  have core: "requeue [] False ?s1 = processSignalingMessage rtc d (requeue [] False (service \<sigma>))"
    by (simp add: requeue_updates process_requeue)
  have "\<sigma>' = (if signalingQueue ?s1 \<noteq> [] then ?\<sigma>1\<lparr>pausing := Suc (pausing ?\<sigma>1)\<rparr> else drainNext ?\<sigma>1)"
    using assms(2) d i0 by (simp add: Let_def)
  moreover have "signalingQueue ?s1 = [] \<Longrightarrow> drainNext ?\<sigma>1 = ?\<sigma>1"
    by (intro drainNext_stays) simp
  ultimately have eq: "\<sigma>' = (if signalingQueue ?s1 \<noteq> [] then ?\<sigma>1\<lparr>pausing := Suc (pausing ?\<sigma>1)\<rparr> else ?\<sigma>1)"
    by simp
  show ?thesis
  proof (cases "signalingQueue ?s1 = []")
    case True
    with eq have "\<sigma>' = ?\<sigma>1" by simp
    then show ?thesis using d q core True
      by (simp add: steady_def backlog_def)
  next
    case False
    with eq have "\<sigma>' = ?\<sigma>1\<lparr>pausing := Suc (pausing ?\<sigma>1)\<rparr>" by simp
    then show ?thesis using d q core False
      by (simp add: steady_def backlog_def)
  qed
qed

lemma resume_step:
  assumes "steady \<sigma>" and "step rtc Resume \<sigma> = Some \<sigma>'"
  shows "steady \<sigma>' \<and> backlog \<sigma>' = backlog \<sigma> \<and>
         requeue [] False (service \<sigma>') = requeue [] False (service \<sigma>) \<and>
         (dispatching \<sigma> = [] \<and> signalingQueue (service \<sigma>) \<noteq> [] \<longrightarrow>
            dispatching \<sigma>' = [hd (signalingQueue (service \<sigma>))] \<and>
            signalingQueue (service \<sigma>') = tl (signalingQueue (service \<sigma>)))"
proof -
  let ?\<sigma>1 = "\<sigma>\<lparr>pausing := pausing \<sigma> - 1\<rparr>"
  from assms(2) have p: "0 < pausing \<sigma>" and eq: "\<sigma>' = drainNext ?\<sigma>1"
    by (simp_all split: if_splits)
  show ?thesis
  proof (cases "signalingQueue (service \<sigma>) = [] \<or> isProcessingSignal (service \<sigma>)")
    case True
    then have "drainNext ?\<sigma>1 = ?\<sigma>1" by (intro drainNext_stays) simp
    with eq have "\<sigma>' = ?\<sigma>1" by simp
    then show ?thesis using assms(1) True
      by (auto simp add: steady_def backlog_def)
  next
    case False
    then obtain h t where ht: "signalingQueue (service \<sigma>) = h # t"
      by (cases "signalingQueue (service \<sigma>)") auto
    from False have nf: "\<not> isProcessingSignal (service \<sigma>)" by simp
    with assms(1) have none: "dispatching \<sigma> = []" by (simp add: steady_def)
    have "drainNext ?\<sigma>1 = ?\<sigma>1\<lparr>service := requeue t True (service ?\<sigma>1),
        dispatching := dispatching ?\<sigma>1 @ [h]\<rparr>"
      using ht nf by (intro drainNext_takes) simp_all
    with eq have "\<sigma>' = ?\<sigma>1\<lparr>service := requeue t True (service ?\<sigma>1),
        dispatching := dispatching ?\<sigma>1 @ [h]\<rparr>" by simp
    then show ?thesis using none ht
      by (simp add: steady_def backlog_def requeue_reads requeue_requeue)
  qed
qed

section \<open>Schedules\<close>

lemma run_append:
  "run rtc (es @ es') \<sigma> = (case run rtc es \<sigma> of None \<Rightarrow> None | Some \<sigma>' \<Rightarrow> run rtc es' \<sigma>')"
  by (induction es arbitrary: \<sigma>) (simp_all split: option.splits)

lemma delivered_append: "delivered (es @ es') = delivered es @ delivered es'"
  by (induction es rule: delivered.induct) simp_all

lemma delivered_settleAll: "delivered (settleAll \<sigma>) = []"
proof -
  have "delivered (concat (replicate n [Resume, Settle 0])) = []" for n
    by (induction n) simp_all
  then show ?thesis by (simp add: settleAll_def delivered_append)
qed

lemma settle_enabled:
  "i < length (dispatching \<sigma>) \<Longrightarrow> \<exists>\<sigma>'. step rtc (Settle i) \<sigma> = Some \<sigma>'"
  by (simp add: Let_def)

lemma steady_idle:
  "signalingQueue s = [] \<Longrightarrow> \<not> isProcessingSignal s \<Longrightarrow> steady (idle s)"
  by (simp add: steady_def idle_def)

lemma run_steady:
  assumes "steady \<sigma>0" and "run rtc es \<sigma>0 = Some \<sigma>"
  shows "steady \<sigma> \<and>
         applySynchronously rtc (backlog \<sigma>) (requeue [] False (service \<sigma>)) =
           applySynchronously rtc (backlog \<sigma>0 @ delivered es) (requeue [] False (service \<sigma>0))"
  using assms
proof (induction es arbitrary: \<sigma>0)
  case Nil
  then show ?case by simp
next
  case (Cons e es)
  from Cons.prems(2) obtain \<sigma>1 where s1: "step rtc e \<sigma>0 = Some \<sigma>1" and r1: "run rtc es \<sigma>1 = Some \<sigma>"
    by (auto split: option.splits)
  have "steady \<sigma>1 \<and>
        applySynchronously rtc (backlog \<sigma>1 @ delivered es) (requeue [] False (service \<sigma>1)) =
          applySynchronously rtc (backlog \<sigma>0 @ delivered (e # es)) (requeue [] False (service \<sigma>0))"
  proof (cases e)
    case (Deliver m)
    with deliver_step [OF Cons.prems(1), of rtc m \<sigma>1] s1 show ?thesis by simp
  next
    case (Settle i)
    with settle_step [OF Cons.prems(1), of rtc i \<sigma>1] s1 show ?thesis
      by (auto simp add: applySynchronously_def)
  next
    case Resume
    with resume_step [OF Cons.prems(1), of rtc \<sigma>1] s1 show ?thesis by simp
  qed
  with Cons.IH [OF _ r1] show ?case by simp
qed

lemma settle_backlog:
  assumes "steady \<sigma>" and "dispatching \<sigma> = []" and "length (signalingQueue (service \<sigma>)) = n"
  shows "\<exists>\<sigma>'. run rtc (concat (replicate n [Resume, Settle 0])) \<sigma> = Some \<sigma>' \<and> quiescent \<sigma>'"
  using assms
proof (induction n arbitrary: \<sigma>)
  case 0
  then show ?case by (simp add: quiescent_def)
next
  case (Suc n)
  from Suc.prems obtain h t where ht: "signalingQueue (service \<sigma>) = h # t" and t: "length t = n"
    by (cases "signalingQueue (service \<sigma>)") auto
  with Suc.prems have p: "0 < pausing \<sigma>" by (simp add: steady_def)
  then obtain \<sigma>1 where s1: "step rtc Resume \<sigma> = Some \<sigma>1" by simp
  from resume_step [OF Suc.prems(1) s1] Suc.prems(2) ht
  have st1: "steady \<sigma>1" and d1: "dispatching \<sigma>1 = [h]" and q1: "signalingQueue (service \<sigma>1) = t"
    by simp_all
  from d1 obtain \<sigma>2 where s2: "step rtc (Settle 0) \<sigma>1 = Some \<sigma>2"
    using settle_enabled [of 0 \<sigma>1 rtc] by auto
  from settle_step [OF st1 s2] d1 q1
  have st2: "steady \<sigma>2" and d2: "dispatching \<sigma>2 = []" and q2: "signalingQueue (service \<sigma>2) = t"
    by (auto simp add: backlog_def)
  from Suc.IH [OF st2 d2] q2 t obtain \<sigma>' where
    "run rtc (concat (replicate n [Resume, Settle 0])) \<sigma>2 = Some \<sigma>'" "quiescent \<sigma>'"
    by auto
  with s1 s2 show ?case by simp
qed

lemma settleAll_rests:
  assumes "steady \<sigma>"
  shows "\<exists>\<sigma>'. run rtc (settleAll \<sigma>) \<sigma> = Some \<sigma>' \<and> quiescent \<sigma>'"
proof (cases "dispatching \<sigma> = []")
  case True
  with settle_backlog [OF assms True refl, of rtc] show ?thesis
    by (simp add: settleAll_def)
next
  case False
  then obtain \<sigma>1 where s1: "step rtc (Settle 0) \<sigma> = Some \<sigma>1"
    using settle_enabled [of 0 \<sigma> rtc] by auto
  from False assms obtain x where x: "dispatching \<sigma> = [x]"
    by (cases "dispatching \<sigma>") (auto simp add: steady_def)
  from settle_step [OF assms s1] x
  have st1: "steady \<sigma>1" and d1: "dispatching \<sigma>1 = []"
    and q1: "signalingQueue (service \<sigma>1) = signalingQueue (service \<sigma>)"
    by (auto simp add: backlog_def)
  from settle_backlog [OF st1 d1 refl, of rtc] obtain \<sigma>' where
    "run rtc (concat (replicate (length (signalingQueue (service \<sigma>1))) [Resume, Settle 0])) \<sigma>1 = Some \<sigma>'"
    "quiescent \<sigma>'" by blast
  with False s1 q1 show ?thesis by (simp add: settleAll_def)
qed

lemma quiescent_service:
  assumes "signalingQueue s = []" and "\<not> isProcessingSignal s"
    and "run rtc es (idle s) = Some \<sigma>" and "quiescent \<sigma>"
  shows "service \<sigma> = applySynchronously rtc (delivered es) s"
proof -
  from run_steady [OF steady_idle [OF assms(1,2)] assms(3)]
  have st: "steady \<sigma>"
    and eq: "applySynchronously rtc (backlog \<sigma>) (requeue [] False (service \<sigma>)) =
             applySynchronously rtc (backlog (idle s) @ delivered es) (requeue [] False (service (idle s)))"
    by simp_all
  from assms(4) have b: "backlog \<sigma> = []" by (simp add: quiescent_def backlog_def)
  from assms(4) st have "signalingQueue (service \<sigma>) = []" "\<not> isProcessingSignal (service \<sigma>)"
    by (simp_all add: quiescent_def steady_def)
  then have c: "requeue [] False (service \<sigma>) = service \<sigma>" by (simp add: requeue_same)
  from assms(1,2) have c0: "requeue [] False s = s" by (simp add: requeue_same)
  from eq b c c0 assms(1) show ?thesis
    by (simp add: applySynchronously_def backlog_def idle_def)
qed

lemma drain_sequential:
  "processSignalingQueue rtc s =
     (if isProcessingSignal s then s
      else applySynchronously rtc (signalingQueue s) (requeue [] False s))"
proof (induction rtc s rule: processSignalingQueue.induct)
  case (1 rtc s)
  show ?case
  proof (cases "signalingQueue s")
    case Nil
    then show ?thesis
      by (subst processSignalingQueue.simps) (simp add: applySynchronously_def requeue_same)
  next
    case (Cons m rest)
    show ?thesis
    proof (cases "isProcessingSignal s")
      case True
      with Cons show ?thesis by (subst processSignalingQueue.simps) simp
    next
      case False
      let ?s' = "(processSignalingMessage rtc m (s\<lparr>isProcessingSignal := True, signalingQueue := rest\<rparr>))
                   \<lparr>isProcessingSignal := False\<rparr>"
      have s': "?s' = requeue rest False (processSignalingMessage rtc m s)"
      proof -
        have "s\<lparr>isProcessingSignal := True, signalingQueue := rest\<rparr> = requeue rest True s"
          by (simp add: requeue_updates)
        then have "?s' = (requeue rest True (processSignalingMessage rtc m s))\<lparr>isProcessingSignal := False\<rparr>"
          by (simp add: process_requeue)
        then show ?thesis by (simp add: requeue_def)
      qed
      have "processSignalingQueue rtc s = processSignalingQueue rtc ?s'"
        using Cons False by (subst processSignalingQueue.simps) simp
      also have "\<dots> = applySynchronously rtc (signalingQueue ?s') (requeue [] False ?s')"
        using "1.IH" [OF Cons False] by (simp add: s' requeue_reads)
      also have "\<dots> = applySynchronously rtc rest (processSignalingMessage rtc m (requeue [] False s))"
        by (simp add: s' requeue_reads requeue_requeue process_requeue)
      finally show ?thesis using Cons False by (simp add: applySynchronously_def)
    qed
  qed
qed

lemma handle_private_idle:
  assumes "signalingQueue s = []" and "\<not> isProcessingSignal s"
  shows "handleSignalingMessage_private rtc m s = processSignalingMessage rtc m s"
proof -
  have "requeue [] False (s\<lparr>signalingQueue := [m]\<rparr>) = s"
    using assms by (simp add: requeue_updates requeue_same)
  moreover have "handleSignalingMessage_private rtc m s =
      processSignalingQueue rtc (s\<lparr>signalingQueue := [m]\<rparr>)"
    using assms by (simp add: handleSignalingMessage_private_def Let_def del: processSignalingQueue.simps)
  ultimately show ?thesis using assms
    by (simp add: drain_sequential applySynchronously_def del: processSignalingQueue.simps)
qed

lemma handle_private_sequence:
  assumes "signalingQueue s = []" and "\<not> isProcessingSignal s"
  shows "foldl (\<lambda>t m. handleSignalingMessage_private rtc m t) s ms = applySynchronously rtc ms s"
  using assms
proof (induction ms arbitrary: s)
  case Nil
  show ?case by (simp add: applySynchronously_def)
next
  case (Cons m ms)
  have "foldl (\<lambda>t m. handleSignalingMessage_private rtc m t) (processSignalingMessage rtc m s) ms =
        applySynchronously rtc ms (processSignalingMessage rtc m s)"
    using Cons.prems by (intro Cons.IH) (simp_all add: process_keeps_queue)
  then show ?case using Cons.prems
    by (simp add: handle_private_idle applySynchronously_def)
qed

lemma run_earlyCandidates:
  "run jsep earlyCandidates (idle calleeSession) =
     Some \<lparr>service = oneBuffered\<lparr>isProcessingSignal := True,
                                   signalingQueue := [signal offer ''sdp-offer'']\<rparr>,
           dispatching = [signal ice_candidate ''cand-2''], pausing = 1\<rparr>"
  by (simp add: earlyCandidates_def idle_def drainNext_def Let_def oneBuffered_eq calleeSession_eq
        processSignalingMessage_def signal_def)

lemma run_wholeNegotiation:
  "run jsep wholeNegotiation (idle calleeSession) =
     Some \<lparr>service = negotiated, dispatching = [], pausing = 0\<rparr>"
proof -
  have "run jsep wholeNegotiation (idle calleeSession) =
        run jsep [Resume, Settle 0, Resume, Settle 0]
          \<lparr>service = oneBuffered\<lparr>isProcessingSignal := True,
                                   signalingQueue := [signal offer ''sdp-offer'']\<rparr>,
           dispatching = [signal ice_candidate ''cand-2''], pausing = 1\<rparr>"
    by (simp add: wholeNegotiation_def run_append run_earlyCandidates)
  also have "\<dots> = Some \<lparr>service = negotiated, dispatching = [], pausing = 0\<rparr>"
    by (simp add: negotiated_def drainNext_def Let_def oneBuffered_eq twoBuffered_eq calleeSession_eq
          processSignalingMessage_def processPendingCandidates_def answerOffer_def emit_def
          jsep_def signal_def)
  finally show ?thesis .
qed

section \<open>The queue as it is written\<close>

text \<open>
  What the first declaration of \<open>handleSignalingMessage\<close> and
  \<open>processSignalingQueue\<close> would do if callers reached them. From a service with
  an empty queue and no drain at work, feeding a sequence of messages, each
  drained before the next arrives, gives the state that \<open>processSignalingMessage\<close>
  gives when applied to the messages one after the other; and however deliveries
  are interleaved with the suspended dispatches and pauses of the drain loops,
  the session can come to rest with no further delivery, and a session at rest
  holds exactly the state of the synchronous application to the messages
  delivered, in the order of their delivery.
\<close>

lemma written_queue_keeps_delivery_order:
  assumes "signalingQueue s = []" and "\<not> isProcessingSignal s"
  shows "foldl (\<lambda>t m. handleSignalingMessage_private rtc m t) s ms = applySynchronously rtc ms s \<and>
         (run rtc es (idle s) = Some \<sigma> \<longrightarrow>
            (quiescent \<sigma> \<longrightarrow> service \<sigma> = applySynchronously rtc (delivered es) s) \<and>
            (\<exists>\<sigma>'. run rtc (es @ settleAll \<sigma>) (idle s) = Some \<sigma>' \<and> quiescent \<sigma>' \<and>
                  delivered (es @ settleAll \<sigma>) = delivered es \<and>
                  service \<sigma>' = applySynchronously rtc (delivered es) s))"
proof (intro conjI impI)
  show "foldl (\<lambda>t m. handleSignalingMessage_private rtc m t) s ms = applySynchronously rtc ms s"
    using assms by (rule handle_private_sequence)
next
  assume "run rtc es (idle s) = Some \<sigma>" and "quiescent \<sigma>"
  with assms show "service \<sigma> = applySynchronously rtc (delivered es) s"
    by (rule quiescent_service)
next
  assume r0: "run rtc es (idle s) = Some \<sigma>"
  from run_steady [OF steady_idle [OF assms] r0] have "steady \<sigma>" by simp
  from settleAll_rests [OF this, of rtc] obtain \<sigma>' where
    r: "run rtc (settleAll \<sigma>) \<sigma> = Some \<sigma>'" and q: "quiescent \<sigma>'" by blast
  from r r0 have all: "run rtc (es @ settleAll \<sigma>) (idle s) = Some \<sigma>'"
    by (simp add: run_append)
  have d: "delivered (es @ settleAll \<sigma>) = delivered es"
    by (simp add: delivered_append delivered_settleAll)
  from quiescent_service [OF assms all q] d
  have "service \<sigma>' = applySynchronously rtc (delivered es) s" by simp
  with all q d show "\<exists>\<sigma>'. run rtc (es @ settleAll \<sigma>) (idle s) = Some \<sigma>' \<and> quiescent \<sigma>' \<and>
               delivered (es @ settleAll \<sigma>) = delivered es \<and>
               service \<sigma>' = applySynchronously rtc (delivered es) s" by blast
qed

lemma written_queue_on_early_candidates:
  "signalingQueue calleeSession = [] \<and> \<not> isProcessingSignal calleeSession \<and>
   foldl (\<lambda>t m. handleSignalingMessage_private jsep m t) calleeSession
     [signal ice_candidate ''cand-1'', signal ice_candidate ''cand-2'', signal offer ''sdp-offer''] =
     negotiated \<and>
   run jsep wholeNegotiation (idle calleeSession) =
     Some \<lparr>service = negotiated, dispatching = [], pausing = 0\<rparr> \<and>
   quiescent \<lparr>service = negotiated, dispatching = [], pausing = 0\<rparr> \<and>
   delivered wholeNegotiation =
     [signal ice_candidate ''cand-1'', signal ice_candidate ''cand-2'', signal offer ''sdp-offer''] \<and>
   negotiated =
     applySynchronously jsep
       [signal ice_candidate ''cand-1'', signal ice_candidate ''cand-2'', signal offer ''sdp-offer'']
       calleeSession"
proof -
  let ?ms = "[signal ice_candidate ''cand-1'', signal ice_candidate ''cand-2'', signal offer ''sdp-offer'']"
  have h1: "signalingQueue calleeSession = []" and h2: "\<not> isProcessingSignal calleeSession"
    by (simp_all add: calleeSession_eq)
  have d: "delivered wholeNegotiation = ?ms"
    by (simp add: wholeNegotiation_def earlyCandidates_def)
  have q: "quiescent \<lparr>service = negotiated, dispatching = [], pausing = 0\<rparr>"
    by (simp add: quiescent_def negotiated_def process_keeps_queue twoBuffered_eq calleeSession_eq)
  note th = written_queue_keeps_delivery_order [OF h1 h2, of jsep ?ms wholeNegotiation
      "\<lparr>service = negotiated, dispatching = [], pausing = 0\<rparr>"]
  from th run_wholeNegotiation q d
  have a: "negotiated = applySynchronously jsep ?ms calleeSession"
    by simp
  from th a have b: "foldl (\<lambda>t m. handleSignalingMessage_private jsep m t) calleeSession ?ms = negotiated"
    by simp
  from h1 h2 run_wholeNegotiation q d a b show ?thesis by simp
qed

section \<open>Messages handed to the class\<close>

lemma negotiated_differs:
  "isRemoteDescriptionSet negotiated \<and> \<not> isRemoteDescriptionSet calleeSession \<and>
   trace negotiated =
     trace calleeSession @
       [SetRemoteDescription ''sdp-offer'', AddIceCandidate ''cand-1'', AddIceCandidate ''cand-2'',
        CreateAnswer, SetLocalDescription ''sdp-answer'',
        SendSignaling \<lparr>sig_callId = ''call_1'', sig_type = answer, sig_from = Some ''bob'',
          sig_to = Some ''alice'', sig_data = ''sdp-answer'', sig_timestamp = None\<rparr>]"
  by (simp add: negotiated_def twoBuffered_eq calleeSession_eq processSignalingMessage_def
        processPendingCandidates_def answerOffer_def emit_def jsep_def signal_def)

text \<open>
  C1 on the code. The transport hands two candidates and then the offer to the
  listener of the callee's session. Each call of \<open>handleSignalingMessage\<close> reaches
  the second declaration and rejects, so the session is left exactly as it was:
  nothing is enqueued and nothing applied. Applied one after the other by
  \<open>processSignalingMessage\<close>, the same messages give a different state, the one
  with the remote description set, the candidates added and the answer sent.
\<close>

theorem delivered_messages_never_applied:
  "foldl (\<lambda>t m. signalingListener 10000 m t) calleeSession
     [signal ice_candidate ''cand-1'', signal ice_candidate ''cand-2'', signal offer ''sdp-offer''] =
     calleeSession \<and>
   applySynchronously jsep
     [signal ice_candidate ''cand-1'', signal ice_candidate ''cand-2'', signal offer ''sdp-offer'']
     calleeSession = negotiated \<and>
   negotiated \<noteq> calleeSession \<and>
   isRemoteDescriptionSet negotiated \<and> \<not> isRemoteDescriptionSet calleeSession \<and>
   trace negotiated =
     trace calleeSession @
       [SetRemoteDescription ''sdp-offer'', AddIceCandidate ''cand-1'', AddIceCandidate ''cand-2'',
        CreateAnswer, SetLocalDescription ''sdp-answer'',
        SendSignaling \<lparr>sig_callId = ''call_1'', sig_type = answer, sig_from = Some ''bob'',
          sig_to = Some ''alice'', sig_data = ''sdp-answer'', sig_timestamp = None\<rparr>]"
proof -
  have "applySynchronously jsep
     [signal ice_candidate ''cand-1'', signal ice_candidate ''cand-2'', signal offer ''sdp-offer'']
     calleeSession = negotiated"
    by (simp add: applySynchronously_def negotiated_def twoBuffered_def oneBuffered_def)
  moreover have "negotiated \<noteq> calleeSession"
    using negotiated_differs by auto
  ultimately show ?thesis using negotiated_differs by (simp add: listener_changes_nothing)
qed

section \<open>One dispatch at a time\<close>

text \<open>
  C6. In every session reached from a service with an empty queue and no drain at
  work, by any interleaving of deliveries, settlements of dispatches and ends of
  pauses, at most one dispatch of \<open>processSignalingMessage\<close> is under way, and
  \<open>isProcessingSignal\<close> is set exactly while one is: neither a message delivered
  while a dispatch is suspended nor one delivered during the pause between two
  messages starts a second dispatch beside the first.
\<close>

theorem one_dispatch_at_a_time:
  assumes "signalingQueue s = []" and "\<not> isProcessingSignal s"
    and "run rtc es (idle s) = Some \<sigma>"
  shows "length (dispatching \<sigma>) \<le> 1 \<and>
         (isProcessingSignal (service \<sigma>) \<longleftrightarrow> dispatching \<sigma> \<noteq> [])"
  using run_steady [OF steady_idle [OF assms(1,2)] assms(3)]
  by (simp add: steady_def)

theorem one_dispatch_at_a_time_witness:
  "signalingQueue calleeSession = [] \<and> \<not> isProcessingSignal calleeSession \<and>
   run jsep earlyCandidates (idle calleeSession) =
     Some \<lparr>service = oneBuffered\<lparr>isProcessingSignal := True,
                                   signalingQueue := [signal offer ''sdp-offer'']\<rparr>,
           dispatching = [signal ice_candidate ''cand-2''], pausing = 1\<rparr> \<and>
   length [signal ice_candidate ''cand-2''] \<le> 1 \<and>
   isProcessingSignal (oneBuffered\<lparr>isProcessingSignal := True,
                                   signalingQueue := [signal offer ''sdp-offer'']\<rparr>)"
proof -
  have h1: "signalingQueue calleeSession = []" and h2: "\<not> isProcessingSignal calleeSession"
    by (simp_all add: calleeSession_eq)
  from one_dispatch_at_a_time [OF h1 h2 run_earlyCandidates]
  have "length [signal ice_candidate ''cand-2''] \<le> 1 \<and>
        isProcessingSignal (oneBuffered\<lparr>isProcessingSignal := True,
                                   signalingQueue := [signal offer ''sdp-offer'']\<rparr>)"
    by simp
  with h1 h2 run_earlyCandidates show ?thesis by simp
qed

end
